theory Spec2Isabelle
  imports Main "HOL-Library.Sublist" "HOL-Library.Word"
begin

section \<open>C strings and the libc functions the server calls\<close>

text \<open>
  A C string is modelled by the list of its bytes before the terminating NUL, so a
  \<^typ>\<open>string\<close> handed to a function of the server never holds a NUL byte itself. Raw
  bytes read from the socket may hold one; \<open>cstr\<close> cuts them at the first NUL, which is
  what every \<^verbatim>\<open>str*\<close> function sees of the receive buffer. A pointer into a string is
  the index of the byte it points to; a NULL result is \<open>None\<close>.
\<close>

definition CR :: char where
  "CR = CHR 0x0D"

definition LF :: char where
  "LF = CHR 0x0A"

definition NUL :: char where
  "NUL = CHR 0x00"

definition TAB :: char where
  "TAB = CHR 0x09"

definition CRLF :: string where
  "CRLF = [CR, LF]"

definition cstr :: "string \<Rightarrow> string" where
  "cstr bytes = takeWhile (\<lambda>c. c \<noteq> NUL) bytes"

text \<open>\<^verbatim>\<open>strchr(s, c)\<close>: the index of the first \<open>c\<close> in \<open>s\<close>.\<close>

fun strchr :: "string \<Rightarrow> char \<Rightarrow> nat option" where
  "strchr [] c = None"
| "strchr (x # xs) c = (if x = c then Some 0 else map_option Suc (strchr xs c))"


text \<open>\<^verbatim>\<open>strstr(s, needle)\<close>: the index where \<open>needle\<close> first occurs in \<open>s\<close>.\<close>

fun strstr :: "string \<Rightarrow> string \<Rightarrow> nat option" where
  "strstr [] needle = (if needle = [] then Some 0 else None)"
| "strstr (x # xs) needle =
     (if prefix needle (x # xs) then Some 0 else map_option Suc (strstr xs needle))"

text \<open>
  \<^verbatim>\<open>strcasecmp(a, b) == 0\<close> in the C locale: equality after mapping \<open>A..Z\<close> to
  \<open>a..z\<close>. \<^verbatim>\<open>strcmp(a, b) == 0\<close> is equality of the two strings and is written \<open>=\<close>.
\<close>

definition tolower :: "char \<Rightarrow> char" where
  "tolower c =
     (let n = (of_char c :: nat) in if 65 \<le> n \<and> n \<le> 90 then char_of (n + 32) else c)"

definition strcasecmp_eq :: "string \<Rightarrow> string \<Rightarrow> bool" where
  "strcasecmp_eq a b \<longleftrightarrow> map tolower a = map tolower b"

text \<open>
  \<^verbatim>\<open>strncpy(dst, src, n)\<close> into a zero-filled field of \<open>n + 1\<close> bytes that is written
  once: the field then reads as the first \<open>n\<close> bytes of \<open>src\<close>. Both callers
  (\<open>nyx_httpd_route\<close>, \<open>nyx_http_response_set_header\<close>) write a slot of a
  \<^verbatim>\<open>calloc\<close>ed array at an index that only grows, so the slot was zero before.
\<close>

definition strncpy :: "string \<Rightarrow> nat \<Rightarrow> string" where
  "strncpy src n = take n src"

text \<open>The conversions \<^verbatim>\<open>%d\<close> and \<^verbatim>\<open>%zu\<close> of \<^verbatim>\<open>snprintf\<close>.\<close>

fun dec_digits :: "nat \<Rightarrow> string" where
  "dec_digits n =
     (if n < 10 then [char_of (48 + n)]
      else dec_digits (n div 10) @ [char_of (48 + n mod 10)])"

declare dec_digits.simps [simp del]

definition fmt_d :: "int \<Rightarrow> string" where
  "fmt_d i = (if i < 0 then CHR ''-'' # dec_digits (nat (- i)) else dec_digits (nat i))"

definition fmt_zu :: "nat \<Rightarrow> string" where
  "fmt_zu n = dec_digits n"

text \<open>
  \<^verbatim>\<open>atoi\<close>: leading white space, an optional sign, then decimal digits. \<open>atoi\<close> is
  the number the digits denote, unbounded. What the C function returns is
  \<open>atoi_int\<close> of it: glibc's \<^verbatim>\<open>atoi\<close> is \<^verbatim>\<open>(int) strtol(s, NULL, 10)\<close>, which clamps
  the number to a 64-bit \<^verbatim>\<open>long\<close> and keeps its low 32 bits as a signed \<^verbatim>\<open>int\<close>.
  \<open>size_t_of_int\<close> is the conversion of an \<^verbatim>\<open>int\<close> to a 64-bit \<^verbatim>\<open>size_t\<close>.
\<close>

definition isspace :: "char \<Rightarrow> bool" where
  "isspace c \<longleftrightarrow> c = CHR '' '' \<or> (9 \<le> (of_char c :: nat) \<and> (of_char c :: nat) \<le> 13)"

definition isdigit :: "char \<Rightarrow> bool" where
  "isdigit c \<longleftrightarrow> 48 \<le> (of_char c :: nat) \<and> (of_char c :: nat) \<le> 57"

fun atoi_digits :: "string \<Rightarrow> int \<Rightarrow> int" where
  "atoi_digits [] acc = acc"
| "atoi_digits (c # cs) acc =
     (if isdigit c then atoi_digits cs (10 * acc + (of_char c - 48)) else acc)"

definition atoi :: "string \<Rightarrow> int" where
  "atoi s =
     (case dropWhile isspace s of
        [] \<Rightarrow> 0
      | c # cs \<Rightarrow>
          if c = CHR ''-'' then - atoi_digits cs 0
          else if c = CHR ''+'' then atoi_digits cs 0
          else atoi_digits (c # cs) 0)"

definition atoi_int :: "int \<Rightarrow> int" where
  "atoi_int v = sint (word_of_int (max (- (2 ^ 63)) (min (2 ^ 63 - 1) v)) :: 32 word)"

definition size_t_of_int :: "int \<Rightarrow> nat" where
  "size_t_of_int i = unat (word_of_int i :: 64 word)"

section \<open>Data model\<close>

definition MAX_ROUTES :: nat where
  "MAX_ROUTES = 256"

definition MAX_MIDDLEWARE :: nat where
  "MAX_MIDDLEWARE = 32"

definition MAX_HEADERS :: nat where
  "MAX_HEADERS = 64"

definition BUFFER_SIZE :: nat where
  "BUFFER_SIZE = 8192"

text \<open>
  \<open>HttpHeader\<close> is \<^verbatim>\<open>struct HttpHeader { char name[128]; char value[512]; }\<close>.
  \<open>HttpHeaderDict\<close> is the array \<^verbatim>\<open>headers[MAX_HEADERS]\<close> with its \<^verbatim>\<open>count\<close>:
  the list holds the entries \<^verbatim>\<open>headers[0 .. count)\<close> in index order, and \<^verbatim>\<open>count\<close>
  is its length.
\<close>

record HttpHeader =
  h_name :: string
  h_value :: string

type_synonym HttpHeaderDict = "HttpHeader list"

text \<open>
  The body of a response is a pointer. Two kinds of target occur: the function-static
  array \<^verbatim>\<open>error_body[1024]\<close> of \<open>nyx_http_response_error\<close>, which every call of that
  function overwrites, and a buffer the pipeline never writes (a string literal, a
  handler's buffer, the \<^verbatim>\<open>malloc\<close>ed file contents), which is given by its bytes.
\<close>

datatype cptr = Error_body | Buffer string

text \<open>The bytes a body pointer addresses, given the contents of the static array.\<close>

fun deref :: "string \<Rightarrow> cptr \<Rightarrow> string" where
  "deref error_body Error_body = error_body"
| "deref error_body (Buffer bytes) = bytes"

text \<open>
  \<^verbatim>\<open>struct NyxHttpRequest\<close> and \<^verbatim>\<open>struct NyxHttpResponse\<close> of the header file. A
  \<^verbatim>\<open>const char *\<close> field that may be NULL is an \<open>option\<close>. The \<^verbatim>\<open>headers\<close> pointer is
  the container itself: the model starts after \<^verbatim>\<open>create_request\<close> and
  \<^verbatim>\<open>create_response\<close> have allocated it.
\<close>

record NyxHttpRequest =
  req_method :: "string option"
  req_path :: "string option"
  req_query_string :: "string option"
  req_protocol :: "string option"
  req_host :: "string option"
  req_content_type :: "string option"
  req_content_length :: nat
  req_headers :: HttpHeaderDict
  req_body :: "string option"
  req_body_length :: nat
  req_remote_addr :: "string option"
  req_remote_port :: nat

record NyxHttpResponse =
  resp_status_code :: int
  resp_status_text :: "string option"
  resp_headers :: HttpHeaderDict
  resp_body :: "cptr option"
  resp_body_length :: nat
  resp_close_connection :: int

text \<open>
  What a handler can change through the API: the response it is given, and the static
  error buffer (by calling \<open>nyx_http_response_error\<close>).
\<close>

type_synonym hstate = "NyxHttpResponse \<times> string"

text \<open>
  \<^verbatim>\<open>typedef void (*NyxHttpHandler)(const NyxHttpRequest *, NyxHttpResponse *, void *)\<close>.
  The opaque \<^verbatim>\<open>void *user_data\<close> is a number.
\<close>

type_synonym user_data = nat

type_synonym NyxHttpHandler = "NyxHttpRequest \<Rightarrow> hstate \<Rightarrow> user_data \<Rightarrow> hstate"

record HttpRoute =
  route_method :: string
  route_path :: string
  route_handler :: NyxHttpHandler
  route_user_data :: user_data

text \<open>
  The registries of \<^verbatim>\<open>struct NyxHttpServer\<close>. \<open>routes\<close> holds
  \<^verbatim>\<open>routes[0 .. route_count)\<close>; \<open>middlewares\<close> holds the parallel arrays
  \<^verbatim>\<open>middlewares[i]\<close>, \<^verbatim>\<open>middleware_data[i]\<close> for \<^verbatim>\<open>i < middleware_count\<close> as pairs.
  The counts are the lengths.
\<close>

record NyxHttpServer =
  running :: int
  routes :: "HttpRoute list"
  middlewares :: "(NyxHttpHandler \<times> user_data) list"

definition route_count :: "NyxHttpServer \<Rightarrow> nat" where
  "route_count server = length (routes server)"

definition middleware_count :: "NyxHttpServer \<Rightarrow> nat" where
  "middleware_count server = length (middlewares server)"

text \<open>
  How a connection can end without a response: the read returned nothing, or the
  process faulted on a null pointer or outside a buffer.
\<close>

datatype error = Connection_dropped | Null_dereference | Out_of_bounds

text \<open>
  What the pipeline does that is visible from outside, in order: calls through the
  function pointers of the registries (by index) and writes to the socket.
\<close>

datatype event = Middleware_called nat | Handler_called nat | Socket_send string

fun is_socket_send :: "event \<Rightarrow> bool" where
  "is_socket_send (Socket_send bytes) = True"
| "is_socket_send e = False"

section \<open>HTTP parsing\<close>

text \<open>
  \<open>parse_request_line\<close> returns the four output buffers when the C function returns
  \<open>0\<close> and \<open>None\<close> when it returns \<open>-1\<close>. \<open>space1\<close>, \<open>space2\<close> and \<open>q\<close> are the
  C pointers of the same names, as indices into \<open>line\<close> and into \<open>p\<close>.
\<close>

definition parse_request_line :: "string \<Rightarrow> (string \<times> string \<times> string \<times> string) option" where
  "parse_request_line line =
     (case strchr line (CHR '' '') of
        None \<Rightarrow> None
      | Some space1 \<Rightarrow>
          (if space1 \<ge> 16 then None
           else
             (let method = take space1 line;
                  p = drop (space1 + 1) line
              in (case strchr p (CHR '' '') of
                    None \<Rightarrow> None
                  | Some space2 \<Rightarrow>
                      (let proto = drop (space2 + 1) p
                       in (case (case strchr p (CHR ''?'') of
                                   None \<Rightarrow> None
                                 | Some q \<Rightarrow> (if q < space2 then Some q else None)) of
                             Some q \<Rightarrow>
                               (if q \<ge> 256 then None
                                else if space2 - q - 1 \<ge> 512 then None
                                else if length proto \<ge> 16 then None
                                else Some (method, take q p,
                                           take (space2 - q - 1) (drop (q + 1) p), proto))
                           | None \<Rightarrow>
                               (if space2 \<ge> 256 then None
                                else if length proto \<ge> 16 then None
                                else Some (method, take space2 p, [], proto))))))))"

text \<open>\<open>parse_header\<close>: the name before the first colon, the value after it and after
  any blanks and tabs.\<close>

definition parse_header :: "string \<Rightarrow> (string \<times> string) option" where
  "parse_header line =
     (case strchr line (CHR '':'') of
        None \<Rightarrow> None
      | Some colon \<Rightarrow>
          if colon \<ge> 128 then None
          else
            let val = dropWhile (\<lambda>c. c = CHR '' '' \<or> c = TAB) (drop (colon + 1) line)
            in if length val \<ge> 512 then None
               else Some (take colon line, val))"

section \<open>Request and response management\<close>

text \<open>\<^verbatim>\<open>calloc\<close> zero-fills: every pointer field is NULL, every count is \<open>0\<close>.\<close>

definition create_request :: NyxHttpRequest where
  "create_request =
     \<lparr>req_method = None, req_path = None, req_query_string = None, req_protocol = None,
      req_host = None, req_content_type = None, req_content_length = 0, req_headers = [],
      req_body = None, req_body_length = 0, req_remote_addr = None, req_remote_port = 0\<rparr>"

definition create_response :: NyxHttpResponse where
  "create_response =
     \<lparr>resp_status_code = 200, resp_status_text = Some ''OK'', resp_headers = [],
      resp_body = None, resp_body_length = 0, resp_close_connection = 0\<rparr>"

section \<open>Response helpers\<close>

text \<open>A NULL \<open>name\<close> or \<open>value\<close> is \<open>None\<close>.\<close>

definition nyx_http_response_set_header ::
    "NyxHttpResponse \<Rightarrow> string option \<Rightarrow> string option \<Rightarrow> NyxHttpResponse" where
  "nyx_http_response_set_header resp name val =
     (case name of
        None \<Rightarrow> resp
      | Some n \<Rightarrow>
          (case val of
             None \<Rightarrow> resp
           | Some v \<Rightarrow>
               (if length (resp_headers resp) \<ge> MAX_HEADERS then resp
                else resp\<lparr>resp_headers := resp_headers resp @
                       [\<lparr>h_name = strncpy n 127, h_value = strncpy v 511\<rparr>]\<rparr>)))"

definition strlen_opt :: "string option \<Rightarrow> nat" where
  "strlen_opt s = (case s of None \<Rightarrow> 0 | Some t \<Rightarrow> length t)"

definition nyx_http_response_json :: "NyxHttpResponse \<Rightarrow> int \<Rightarrow> string option \<Rightarrow> NyxHttpResponse" where
  "nyx_http_response_json resp status json =
     nyx_http_response_set_header
       (resp\<lparr>resp_status_code := status, resp_body := map_option Buffer json,
              resp_body_length := strlen_opt json\<rparr>)
       (Some ''Content-Type'') (Some ''application/json'')"

definition nyx_http_response_html :: "NyxHttpResponse \<Rightarrow> int \<Rightarrow> string option \<Rightarrow> NyxHttpResponse" where
  "nyx_http_response_html resp status html =
     nyx_http_response_set_header
       (resp\<lparr>resp_status_code := status, resp_body := map_option Buffer html,
              resp_body_length := strlen_opt html\<rparr>)
       (Some ''Content-Type'') (Some ''text/html; charset=utf-8'')"

definition nyx_http_response_text :: "NyxHttpResponse \<Rightarrow> int \<Rightarrow> string option \<Rightarrow> NyxHttpResponse" where
  "nyx_http_response_text resp status txt =
     nyx_http_response_set_header
       (resp\<lparr>resp_status_code := status, resp_body := map_option Buffer txt,
              resp_body_length := strlen_opt txt\<rparr>)
       (Some ''Content-Type'') (Some ''text/plain; charset=utf-8'')"

text \<open>
  The page \<^verbatim>\<open>snprintf\<close> formats into \<^verbatim>\<open>error_body\<close>, before it is cut to the
  \<open>1023\<close> bytes that fit the array of \<open>1024\<close>.
\<close>

definition error_page :: "int \<Rightarrow> string option \<Rightarrow> string" where
  "error_page status message =
     ''<html><head><title>'' @ fmt_d status @ '' Error</title></head>'' @
     ''<body><h1>'' @ fmt_d status @ '' Error</h1><p>'' @
     (case message of None \<Rightarrow> ''Unknown error'' | Some m \<Rightarrow> m) @
     ''</p></body></html>''"

text \<open>
  \<open>nyx_http_response_error\<close> takes the response and the static array as they are and
  returns both as it leaves them: the array holds the new page, whatever it held, and
  the body of the response is the address of the array.
\<close>

definition nyx_http_response_error :: "hstate \<Rightarrow> int \<Rightarrow> string option \<Rightarrow> hstate" where
  "nyx_http_response_error hs status message =
     (let error_body = take 1023 (error_page status message);
          resp = (fst hs)\<lparr>resp_status_code := status, resp_body := Some Error_body,
                         resp_body_length := length error_body\<rparr>
      in (nyx_http_response_set_header resp (Some ''Content-Type'') (Some ''text/html''),
          error_body))"



section \<open>Request helpers\<close>

text \<open>The loop of \<open>nyx_http_request_get_header\<close> over \<^verbatim>\<open>headers[0 .. count)\<close>.\<close>

fun get_header_loop :: "HttpHeaderDict \<Rightarrow> string \<Rightarrow> string option" where
  "get_header_loop [] name = None"
| "get_header_loop (h # rest) name =
     (if strcasecmp_eq (h_name h) name then Some (h_value h) else get_header_loop rest name)"

definition nyx_http_request_get_header :: "NyxHttpRequest \<Rightarrow> string option \<Rightarrow> string option" where
  "nyx_http_request_get_header req name =
     (case name of None \<Rightarrow> None | Some n \<Rightarrow> get_header_loop (req_headers req) n)"

section \<open>Server core\<close>

text \<open>\<open>nyx_httpd_create\<close>: the registries of the zero-filled server.\<close>

definition nyx_httpd_create :: NyxHttpServer where
  "nyx_httpd_create = \<lparr>running = 0, routes = [], middlewares = []\<rparr>"

text \<open>
  Both registration functions return the \<^verbatim>\<open>int\<close> result and the server as they leave
  it. A NULL \<open>method\<close>, \<open>path\<close> or \<open>handler\<close> is \<open>None\<close>.
\<close>

definition nyx_httpd_route ::
    "NyxHttpServer \<Rightarrow> string option \<Rightarrow> string option \<Rightarrow> NyxHttpHandler option \<Rightarrow> user_data
      \<Rightarrow> int \<times> NyxHttpServer" where
  "nyx_httpd_route server method path handler data =
     (case method of
        None \<Rightarrow> (- 1, server)
      | Some m \<Rightarrow>
          (case path of
             None \<Rightarrow> (- 1, server)
           | Some p \<Rightarrow>
               (case handler of
                  None \<Rightarrow> (- 1, server)
                | Some h \<Rightarrow>
                    (if route_count server \<ge> MAX_ROUTES then (- 1, server)
                     else (0, server\<lparr>routes := routes server @
                             [\<lparr>route_method = strncpy m 15, route_path = strncpy p 255,
                               route_handler = h, route_user_data = data\<rparr>]\<rparr>)))))"

definition nyx_httpd_middleware ::
    "NyxHttpServer \<Rightarrow> NyxHttpHandler option \<Rightarrow> user_data \<Rightarrow> int \<times> NyxHttpServer" where
  "nyx_httpd_middleware server middleware data =
     (case middleware of
        None \<Rightarrow> (- 1, server)
      | Some mw \<Rightarrow>
          (if middleware_count server \<ge> MAX_MIDDLEWARE then (- 1, server)
           else (0, server\<lparr>middlewares := middlewares server @ [(mw, data)]\<rparr>)))"

definition nyx_httpd_stop :: "NyxHttpServer \<Rightarrow> int \<times> NyxHttpServer" where
  "nyx_httpd_stop server = (0, server\<lparr>running := 0\<rparr>)"

text \<open>
  The calls a program can make on a server between \<open>nyx_httpd_create\<close> and
  \<open>nyx_httpd_destroy\<close> that write to the fields above. \<open>nyx_httpd_start\<close> writes the
  socket and the running flag only, and handling a connection only reads the server.
\<close>

datatype server_op =
    Add_route "string option" "string option" "NyxHttpHandler option" user_data
  | Add_middleware "NyxHttpHandler option" user_data
  | Stop

fun apply_op :: "NyxHttpServer \<Rightarrow> server_op \<Rightarrow> NyxHttpServer" where
  "apply_op server (Add_route m p h d) = snd (nyx_httpd_route server m p h d)"
| "apply_op server (Add_middleware h d) = snd (nyx_httpd_middleware server h d)"
| "apply_op server Stop = snd (nyx_httpd_stop server)"

definition run_ops :: "server_op list \<Rightarrow> NyxHttpServer" where
  "run_ops ops = foldl apply_op nyx_httpd_create ops"

section \<open>Sending a response\<close>

text \<open>
  \<^verbatim>\<open>len += snprintf(buffer + len, sizeof(buffer) - len, ...)\<close> on the pair of what the
  buffer holds so far and \<open>len\<close>. \<^verbatim>\<open>snprintf\<close> stores at most \<open>size - 1\<close> bytes of the
  formatted text \<open>s\<close> and returns its full length. Once \<open>len\<close> is past the size of
  the buffer the destination is outside it and the size wraps around as a
  \<^verbatim>\<open>size_t\<close>: the write is out of bounds.
\<close>

definition buf_printf :: "string \<times> nat \<Rightarrow> string \<Rightarrow> error + string \<times> nat" where
  "buf_printf st s =
     (case st of (buf, len) \<Rightarrow>
        if len > BUFFER_SIZE then Inl Out_of_bounds
        else Inr (buf @ take (BUFFER_SIZE - len - 1) s, len + length s))"

fun add_headers :: "HttpHeaderDict \<Rightarrow> string \<times> nat \<Rightarrow> error + string \<times> nat" where
  "add_headers [] st = Inr st"
| "add_headers (h # rest) st =
     (case buf_printf st (h_name h @ '': '' @ h_value h @ CRLF) of
        Inl e \<Rightarrow> Inl e
      | Inr st' \<Rightarrow> add_headers rest st')"

definition status_line :: "NyxHttpResponse \<Rightarrow> string" where
  "status_line resp =
     ''HTTP/1.1 '' @ fmt_d (resp_status_code resp) @ '' '' @
     (case resp_status_text resp of None \<Rightarrow> ''OK'' | Some t \<Rightarrow> t) @ CRLF"

definition render_headers :: "NyxHttpResponse \<Rightarrow> error + string \<times> nat" where
  "render_headers resp =
     (case buf_printf ([], 0) (status_line resp) of
        Inl e \<Rightarrow> Inl e
      | Inr st0 \<Rightarrow>
          (case add_headers (resp_headers resp) st0 of
             Inl e \<Rightarrow> Inl e
           | Inr st1 \<Rightarrow>
               (case buf_printf st1 (''Content-Length: '' @ fmt_zu (resp_body_length resp) @ CRLF) of
                  Inl e \<Rightarrow> Inl e
                | Inr st2 \<Rightarrow> buf_printf st2 CRLF)))"

text \<open>The cast \<^verbatim>\<open>(int)resp->body_length\<close> of a \<^verbatim>\<open>size_t\<close> to a 32-bit \<^verbatim>\<open>int\<close>.\<close>

definition int_of_size_t :: "nat \<Rightarrow> int" where
  "int_of_size_t n = sint (word_of_nat n :: 32 word)"

text \<open>
  \<open>send_response\<close> returns the writes to the socket, in order, and the \<^verbatim>\<open>int\<close> it
  returns. The first \<^verbatim>\<open>send\<close> takes \<open>len\<close> bytes of the buffer, which are the text and
  its terminator; more than the buffer holds is out of bounds. The second takes the
  cast length from the body; bytes past what the pointer's target is known to hold (or a
  negative length) are out of bounds as well.
\<close>

definition send_response :: "string \<Rightarrow> NyxHttpResponse \<Rightarrow> event list \<times> (error + int)" where
  "send_response error_body resp =
     (case render_headers resp of
        Inl e \<Rightarrow> ([], Inl e)
      | Inr (buf, len) \<Rightarrow>
          (if len > BUFFER_SIZE then ([], Inl Out_of_bounds)
           else
             (let first = Socket_send (take len (buf @ [NUL])) in
              case resp_body resp of
                None \<Rightarrow> ([first], Inr 0)
              | Some ptr \<Rightarrow>
                  (if resp_body_length resp > 0 then
                     (let n = int_of_size_t (resp_body_length resp);
                          bytes = deref error_body ptr
                      in if n < 0 \<or> nat n > length bytes then ([first], Inl Out_of_bounds)
                         else ([first, Socket_send (take (nat n) bytes)], Inr 0))
                   else ([first], Inr 0)))))"

section \<open>Connection handler\<close>

text \<open>
  The two stores of \<open>handle_client\<close> into the request. \<open>store_request_line\<close> is the
  body of \<^verbatim>\<open>if (line_end)\<close>: the fields are set only when \<open>parse_request_line\<close>
  returns \<open>0\<close>. \<open>store_header\<close> is the body of the header loop for one line.
\<close>

definition store_request_line :: "string \<Rightarrow> NyxHttpRequest \<Rightarrow> NyxHttpRequest" where
  "store_request_line line req =
     (case parse_request_line line of
        None \<Rightarrow> req
      | Some (method, path, query, protocol) \<Rightarrow>
          req\<lparr>req_method := Some method, req_path := Some path,
              req_query_string := Some query, req_protocol := Some protocol\<rparr>)"

definition store_header :: "string \<Rightarrow> NyxHttpRequest \<Rightarrow> NyxHttpRequest" where
  "store_header line req =
     (case parse_header line of
        None \<Rightarrow> req
      | Some (name, val) \<Rightarrow>
          (if length (req_headers req) < MAX_HEADERS then
             (let req' = req\<lparr>req_headers := req_headers req @ [\<lparr>h_name = name, h_value = val\<rparr>]\<rparr>
              in if strcasecmp_eq name ''Host'' then req'\<lparr>req_host := Some val\<rparr>
                 else if strcasecmp_eq name ''Content-Type'' then req'\<lparr>req_content_type := Some val\<rparr>
                 else if strcasecmp_eq name ''Content-Length'' then req'\<lparr>req_content_length := size_t_of_int (atoi_int (atoi val))\<rparr>
                 else req')
           else req))"

text \<open>
  The header loop: \<open>header_line\<close> is the rest of the buffer; the loop ends when no
  CRLF is left or at an empty line.
\<close>

function parse_headers :: "string \<Rightarrow> NyxHttpRequest \<Rightarrow> NyxHttpRequest" where
  "parse_headers header_line req =
     (case strstr header_line CRLF of
        None \<Rightarrow> req
      | Some line_end \<Rightarrow>
          (if line_end = 0 then req
           else parse_headers (drop (line_end + 2) header_line)
                  (store_header (take line_end header_line) req)))"
  by pat_completeness auto
termination
proof (relation "measure (\<lambda>(header_line, req). length header_line)")
  show "wf (measure (\<lambda>(header_line, req). length header_line))"
    by simp
next
  fix header_line :: string and req :: NyxHttpRequest and line_end :: nat
  assume found: "strstr header_line CRLF = Some line_end"
  have "i + length needle \<le> length s" if "strstr s needle = Some i" for s needle i
    using that
  proof (induction s arbitrary: i)
    case Nil
    then show ?case by (simp split: if_splits)
  next
    case (Cons x xs)
    show ?case
    proof (cases "prefix needle (x # xs)")
      case True
      then have "length needle \<le> length (x # xs)" by (rule prefix_length_le)
      with True Cons.prems show ?thesis by simp
    next
      case False
      with Cons.prems obtain j where "strstr xs needle = Some j" and "i = Suc j"
        by auto
      with Cons.IH show ?thesis by simp
    qed
  qed
  from this [OF found] have "line_end + 2 \<le> length header_line"
    by (simp add: CRLF_def)
  then show "((drop (line_end + 2) header_line, store_header (take line_end header_line) req),
               (header_line, req)) \<in> measure (\<lambda>(header_line, req). length header_line)"
    by simp
qed

declare parse_headers.simps [simp del]

text \<open>
  The parsing part of \<open>handle_client\<close>. Without a CRLF in the buffer \<open>line_end\<close> is
  NULL, the request line is skipped, and \<^verbatim>\<open>header_line = line_end + 2\<close> is the address
  \<open>2\<close>, which \<^verbatim>\<open>strstr\<close> then reads.
\<close>

definition parse_request :: "string \<Rightarrow> NyxHttpRequest \<Rightarrow> error + NyxHttpRequest" where
  "parse_request buffer req =
     (case strstr buffer CRLF of
        None \<Rightarrow> Inl Null_dereference
      | Some line_end \<Rightarrow>
          Inr (parse_headers (drop (line_end + 2) buffer)
                 (store_request_line (take line_end buffer) req)))"

text \<open>The middleware loop, from index \<open>i\<close> on.\<close>

fun run_middlewares ::
    "(NyxHttpHandler \<times> user_data) list \<Rightarrow> nat \<Rightarrow> NyxHttpRequest \<Rightarrow> hstate \<Rightarrow> event list \<times> hstate" where
  "run_middlewares [] i req hs = ([], hs)"
| "run_middlewares ((mw, data) # rest) i req hs =
     (case run_middlewares rest (Suc i) req (mw req hs data) of
        (tr, hs') \<Rightarrow> (Middleware_called i # tr, hs'))"

text \<open>
  The route loop, from index \<open>i\<close> on; the result holds \<open>handled\<close>. \<^verbatim>\<open>strcmp\<close> reads
  its second argument, so an unset method faults at the first route, and an unset path
  at the first route whose method compares equal.
\<close>

fun route_loop ::
    "HttpRoute list \<Rightarrow> nat \<Rightarrow> NyxHttpRequest \<Rightarrow> hstate \<Rightarrow> event list \<times> (error + bool \<times> hstate)" where
  "route_loop [] i req hs = ([], Inr (False, hs))"
| "route_loop (route # rest) i req hs =
     (case req_method req of
        None \<Rightarrow> ([], Inl Null_dereference)
      | Some method \<Rightarrow>
          (if route_method route = method then
             (case req_path req of
                None \<Rightarrow> ([], Inl Null_dereference)
              | Some path \<Rightarrow>
                  (if route_path route = path then
                     ([Handler_called i],
                      Inr (True, route_handler route req hs (route_user_data route)))
                   else route_loop rest (Suc i) req hs))
           else route_loop rest (Suc i) req hs))"

text \<open>Route matching and the default 404.\<close>

definition dispatch ::
    "NyxHttpServer \<Rightarrow> NyxHttpRequest \<Rightarrow> hstate \<Rightarrow> event list \<times> (error + hstate)" where
  "dispatch server req hs =
     (case route_loop (routes server) 0 req hs of
        (tr, Inl e) \<Rightarrow> (tr, Inl e)
      | (tr, Inr (handled, hs')) \<Rightarrow>
          (tr, Inr (if handled then hs' else nyx_http_response_error hs' 404 (Some ''Not Found''))))"

text \<open>
  \<open>handle_client\<close>: \<open>incoming\<close> is what the socket has to read, \<open>error_body\<close> what the
  static array holds on entry. The result is the events up to the end or the fault,
  and the final response and static array or the error. The allocations
  (\<^verbatim>\<open>create_request\<close>, \<^verbatim>\<open>create_response\<close>, \<^verbatim>\<open>str_dup\<close>) are taken to succeed. The
  access log, the release of the request and the response and the close of the socket
  are left out.
\<close>

definition handle_client ::
    "NyxHttpServer \<Rightarrow> string \<Rightarrow> nat \<Rightarrow> string \<Rightarrow> string \<Rightarrow> event list \<times> (error + hstate)" where
  "handle_client server client_addr client_port incoming error_body =
     (let received = take (BUFFER_SIZE - 1) incoming in
      if received = [] then ([], Inl Connection_dropped)
      else
        (case parse_request (cstr received)
                (create_request\<lparr>req_remote_addr := Some client_addr,
                                 req_remote_port := client_port\<rparr>) of
           Inl e \<Rightarrow> ([], Inl e)
         | Inr req \<Rightarrow>
             (case run_middlewares (middlewares server) 0 req (create_response, error_body) of
                (tr_mw, hs_mw) \<Rightarrow>
                  (case dispatch server req hs_mw of
                     (tr_rt, Inl e) \<Rightarrow> (tr_mw @ tr_rt, Inl e)
                   | (tr_rt, Inr hs) \<Rightarrow>
                       (case send_response (snd hs) (fst hs) of
                          (tr_send, Inl e) \<Rightarrow> (tr_mw @ tr_rt @ tr_send, Inl e)
                        | (tr_send, Inr r) \<Rightarrow> (tr_mw @ tr_rt @ tr_send, Inr hs))))))"

section \<open>Concrete handlers, servers and responses\<close>

text \<open>Inputs on which the theorems below are instantiated.\<close>

definition nop_handler :: NyxHttpHandler where
  "nop_handler req hs data = hs"

definition hello_handler :: NyxHttpHandler where
  "hello_handler req hs data = (nyx_http_response_html (fst hs) 200 (Some ''hello''), snd hs)"

definition get_root_route :: server_op where
  "get_root_route = Add_route (Some ''GET'') (Some ''/'') (Some nop_handler) 0"

definition nop_middleware :: server_op where
  "nop_middleware = Add_middleware (Some nop_handler) 0"


definition get_a_request :: NyxHttpRequest where
  "get_a_request = create_request\<lparr>req_method := Some ''GET'', req_path := Some ''/a''\<rparr>"


definition full_response :: NyxHttpResponse where
  "full_response =
     create_response\<lparr>resp_headers := replicate 64 \<lparr>h_name = ''X-Pad'', h_value = ''0''\<rparr>\<rparr>"

definition long_method :: string where
  "long_method = ''PROPFIND-EXTENDED''"


definition hello_response :: NyxHttpResponse where
  "hello_response = nyx_http_response_html create_response 200 (Some ''hello'')"

definition one_route_server :: NyxHttpServer where
  "one_route_server =
     \<lparr>running = 0,
      routes = [\<lparr>route_method = ''GET'', route_path = ''/'',
                 route_handler = nop_handler, route_user_data = 0\<rparr>],
      middlewares = []\<rparr>"

definition get_root_bytes :: string where
  "get_root_bytes = ''GET / HTTP/1.1'' @ CRLF @ CRLF"

definition bad_line_bytes :: string where
  "bad_line_bytes = ''BAD'' @ CRLF @ CRLF"

definition no_crlf_bytes :: string where
  "no_crlf_bytes = ''GET / HTTP/1.1''"

definition one_middleware_server :: NyxHttpServer where
  "one_middleware_server = \<lparr>running = 0, routes = [], middlewares = [(nop_handler, 0)]\<rparr>"

section \<open>The specification's tables and layouts\<close>



text \<open>
  The header block as the specification words it: the status line, every response
  header in order as \<open>Name: Value\<close> and CRLF, the \<open>Content-Length\<close> line with the
  decimal of the body length, and the blank line.
\<close>

definition header_lines :: "HttpHeaderDict \<Rightarrow> string" where
  "header_lines hs = concat (map (\<lambda>h. h_name h @ '': '' @ h_value h @ CRLF) hs)"

definition header_block :: "NyxHttpResponse \<Rightarrow> string" where
  "header_block resp =
     status_line resp @ header_lines (resp_headers resp) @
     ''Content-Length: '' @ fmt_zu (resp_body_length resp) @ CRLF @ CRLF"

lemmas eval_parse = BUFFER_SIZE_def cstr_def NUL_def CRLF_def CR_def LF_def TAB_def
  parse_request_def store_request_line_def parse_request_line_def parse_headers.simps
  store_header_def parse_header_def create_request_def create_response_def Let_def
  MAX_HEADERS_def

section \<open>Events of a connection\<close>

lemma run_middlewares_trace:
  "fst (run_middlewares mws i req hs) = map Middleware_called [i ..< i + length mws]"
proof (induction mws arbitrary: i hs)
  case Nil
  then show ?case by simp
next
  case (Cons m mws)
  obtain mw data where m: "m = (mw, data)" by (cases m)
  have "fst (run_middlewares (m # mws) i req hs) =
      Middleware_called i # fst (run_middlewares mws (Suc i) req (mw req hs data))"
    by (simp add: m split: prod.splits)
  also have "\<dots> = Middleware_called i # map Middleware_called [Suc i ..< Suc i + length mws]"
    by (simp only: Cons.IH)
  also have "\<dots> = map Middleware_called (i # [Suc i ..< Suc (i + length mws)])"
    by simp
  also have "i # [Suc i ..< Suc (i + length mws)] = [i ..< Suc (i + length mws)]"
    by (rule upt_conv_Cons [symmetric]) simp
  finally show ?case by simp
qed

lemma run_middlewares_state:
  "snd (run_middlewares mws i req hs) = fold (\<lambda>(mw, data) st. mw req st data) mws hs"
proof (induction mws arbitrary: i hs)
  case Nil
  then show ?case by simp
next
  case (Cons m mws)
  obtain mw data where m: "m = (mw, data)" by (cases m)
  have "snd (run_middlewares (m # mws) i req hs) =
      snd (run_middlewares mws (Suc i) req (mw req hs data))"
    by (simp add: m split: prod.splits)
  also have "\<dots> = fold (\<lambda>(mw, data) st. mw req st data) mws (mw req hs data)"
    by (rule Cons.IH)
  finally show ?case by (simp add: m)
qed

lemma route_loop_trace:
  "\<forall>e \<in> set (fst (route_loop rs i req hs)). \<exists>k. e = Handler_called k"
  by (induction rs arbitrary: i) (auto split: option.splits)

lemma dispatch_trace:
  "\<forall>e \<in> set (fst (dispatch server req hs)). \<exists>k. e = Handler_called k"
  using route_loop_trace [of "routes server" 0 req hs]
  by (auto simp: dispatch_def split: prod.splits sum.splits)

lemma send_response_trace:
  "\<forall>e \<in> set (fst (send_response error_body resp)). \<exists>bytes. e = Socket_send bytes"
  by (auto simp: send_response_def Let_def split: sum.splits prod.splits option.splits if_splits)

text \<open>
  Once the parsing part has returned a request, whether or not the request line could be
  parsed, the events of \<open>handle_client\<close> start with one call of each registered
  middleware, in registration order, and no other call of a middleware follows. The
  handlers return nothing: what the route loop starts from is the state they leave in
  turn (\<open>run_middlewares_state\<close>).
\<close>

lemma middlewares_run_once_in_order:
  assumes "incoming \<noteq> []"
    and "parse_request (cstr (take (BUFFER_SIZE - 1) incoming))
           (create_request\<lparr>req_remote_addr := Some addr, req_remote_port := port\<rparr>) = Inr req"
  shows "\<exists>rest. fst (handle_client server addr port incoming error_body) =
           map Middleware_called [0 ..< middleware_count server] @ rest \<and>
           (\<forall>k. Middleware_called k \<notin> set rest)"
proof -
  define received where "received = take (BUFFER_SIZE - 1) incoming"
  from assms(1) have nonempty: "received \<noteq> []"
    by (cases incoming) (simp_all add: received_def BUFFER_SIZE_def)
  have parsed: "parse_request (cstr received)
      (create_request\<lparr>req_remote_addr := Some addr, req_remote_port := port\<rparr>) = Inr req"
    using assms(2) by (simp only: received_def)
  obtain tr_mw hs_mw where mw: "run_middlewares (middlewares server) 0 req (create_response, error_body)
      = (tr_mw, hs_mw)"
    by (cases "run_middlewares (middlewares server) 0 req (create_response, error_body)")
  have tr_mw: "tr_mw = map Middleware_called [0 ..< middleware_count server]"
    using run_middlewares_trace [of "middlewares server" 0 req "(create_response, error_body)"]
    by (simp add: mw middleware_count_def)
  obtain tr_rt r_rt where rt: "dispatch server req hs_mw = (tr_rt, r_rt)"
    by (cases "dispatch server req hs_mw")
  have no_rt: "Middleware_called k \<notin> set tr_rt" for k
    using dispatch_trace [of server req hs_mw] by (auto simp: rt)
  show ?thesis
  proof (cases r_rt)
    case (Inl e)
    have "fst (handle_client server addr port incoming error_body) = tr_mw @ tr_rt"
      unfolding handle_client_def Let_def received_def [symmetric]
      by (simp add: nonempty parsed mw rt Inl)
    with tr_mw no_rt show ?thesis by auto
  next
    case (Inr hs)
    obtain tr_send r_send where send: "send_response (snd hs) (fst hs) = (tr_send, r_send)"
      by (cases "send_response (snd hs) (fst hs)")
    have no_send: "Middleware_called k \<notin> set tr_send" for k
      using send_response_trace [of "snd hs" "fst hs"] by (auto simp: send)
    have "fst (handle_client server addr port incoming error_body) = tr_mw @ tr_rt @ tr_send"
      unfolding handle_client_def Let_def received_def [symmetric]
      by (cases r_send) (simp_all add: nonempty parsed mw rt Inr send)
    with tr_mw no_rt no_send show ?thesis by auto
  qed
qed

lemma handle_client_socket_writes:
  assumes "handle_client server addr port incoming error_body0 = (tr, Inr (resp, error_body))"
  shows "filter is_socket_send tr = fst (send_response error_body resp)"
proof -
  define received where "received = take (BUFFER_SIZE - 1) incoming"
  note hc = assms [unfolded handle_client_def Let_def, folded received_def]
  from hc have nonempty: "received \<noteq> []"
    by (auto split: if_splits)
  from hc nonempty obtain req where parsed: "parse_request (cstr received)
      (create_request\<lparr>req_remote_addr := Some addr, req_remote_port := port\<rparr>) = Inr req"
    by (auto split: sum.splits)
  obtain tr_mw hs_mw where mw: "run_middlewares (middlewares server) 0 req (create_response, error_body0)
      = (tr_mw, hs_mw)"
    by (cases "run_middlewares (middlewares server) 0 req (create_response, error_body0)")
  obtain tr_rt r_rt where rt: "dispatch server req hs_mw = (tr_rt, r_rt)"
    by (cases "dispatch server req hs_mw")
  from hc nonempty parsed mw rt obtain hs where r_rt: "r_rt = Inr hs"
    by (cases r_rt) auto
  obtain tr_send r_send where send: "send_response (snd hs) (fst hs) = (tr_send, r_send)"
    by (cases "send_response (snd hs) (fst hs)")
  from hc nonempty parsed mw rt r_rt send
  have tr: "tr = tr_mw @ tr_rt @ tr_send" and hs: "hs = (resp, error_body)"
    by (cases r_send; simp)+
  have "tr_mw = map Middleware_called [0 ..< 0 + length (middlewares server)]"
    using run_middlewares_trace [of "middlewares server" 0 req "(create_response, error_body0)"]
    by (simp add: mw)
  then have f_mw: "filter is_socket_send tr_mw = []"
    by (simp add: filter_empty_conv)
  have f_rt: "filter is_socket_send tr_rt = []"
    using dispatch_trace [of server req hs_mw] by (auto simp: rt filter_empty_conv)
  have f_send: "filter is_socket_send tr_send = tr_send"
    using send_response_trace [of "snd hs" "fst hs"] by (auto simp: send filter_id_conv)
  from tr f_mw f_rt f_send have "filter is_socket_send tr = tr_send"
    by simp
  with send hs show ?thesis by simp
qed

section \<open>Registry capacity\<close>

lemma apply_op_bounds:
  assumes "route_count server \<le> MAX_ROUTES" and "middleware_count server \<le> MAX_MIDDLEWARE"
  shows "route_count (apply_op server op) \<le> MAX_ROUTES \<and>
         middleware_count (apply_op server op) \<le> MAX_MIDDLEWARE"
  using assms
  by (cases op)
     (auto simp: nyx_httpd_route_def nyx_httpd_middleware_def nyx_httpd_stop_def
        route_count_def middleware_count_def split: option.splits)

lemma foldl_apply_op_bounds:
  "route_count server \<le> MAX_ROUTES \<Longrightarrow> middleware_count server \<le> MAX_MIDDLEWARE \<Longrightarrow>
   route_count (foldl apply_op server ops) \<le> MAX_ROUTES \<and>
   middleware_count (foldl apply_op server ops) \<le> MAX_MIDDLEWARE"
proof (induction ops arbitrary: server)
  case Nil
  then show ?case by simp
next
  case (Cons op ops)
  from apply_op_bounds [OF Cons.prems, of op]
  show ?case using Cons.IH [of "apply_op server op"] by simp
qed

lemma run_ops_snoc: "run_ops (ops @ [op]) = apply_op (run_ops ops) op"
  by (simp add: run_ops_def)

lemma repeated_route_registration:
  "route_count (run_ops (replicate n (Add_route (Some m) (Some p) (Some h) d))) = min n 256"
proof (induction n)
  case 0
  then show ?case by (simp add: run_ops_def nyx_httpd_create_def route_count_def)
next
  case (Suc n)
  have "replicate (Suc n) (Add_route (Some m) (Some p) (Some h) d) =
      replicate n (Add_route (Some m) (Some p) (Some h) d) @ [Add_route (Some m) (Some p) (Some h) d]"
    by (simp add: replicate_append_same)
  then have "route_count (run_ops (replicate (Suc n) (Add_route (Some m) (Some p) (Some h) d))) =
      route_count (apply_op (run_ops (replicate n (Add_route (Some m) (Some p) (Some h) d)))
        (Add_route (Some m) (Some p) (Some h) d))"
    by (simp only: run_ops_snoc)
  also have "\<dots> = min (Suc n) 256"
    using Suc.IH
    by (auto simp: nyx_httpd_route_def route_count_def MAX_ROUTES_def)
  finally show ?case .
qed

lemma repeated_middleware_registration:
  "middleware_count (run_ops (replicate n (Add_middleware (Some h) d))) = min n 32"
proof (induction n)
  case 0
  then show ?case by (simp add: run_ops_def nyx_httpd_create_def middleware_count_def)
next
  case (Suc n)
  have "replicate (Suc n) (Add_middleware (Some h) d) =
      replicate n (Add_middleware (Some h) d) @ [Add_middleware (Some h) d]"
    by (simp add: replicate_append_same)
  then have "middleware_count (run_ops (replicate (Suc n) (Add_middleware (Some h) d))) =
      middleware_count (apply_op (run_ops (replicate n (Add_middleware (Some h) d)))
        (Add_middleware (Some h) d))"
    by (simp only: run_ops_snoc)
  also have "\<dots> = min (Suc n) 32"
    using Suc.IH
    by (auto simp: nyx_httpd_middleware_def middleware_count_def MAX_MIDDLEWARE_def)
  finally show ?case .
qed

text \<open>
  C3. With 256 routes registered \<open>nyx_httpd_route\<close> returns \<open>-1\<close> and leaves the server
  as it was, whatever its arguments; with 32 middleware entries \<open>nyx_httpd_middleware\<close>
  does the same. Starting from \<open>nyx_httpd_create\<close>, no sequence of registrations and
  stops brings the route count above 256 or the middleware count above 32.
\<close>

theorem C3_registry_capacity:
  "(route_count server = 256 \<longrightarrow> nyx_httpd_route server m p h d = (- 1, server)) \<and>
   (middleware_count server = 32 \<longrightarrow> nyx_httpd_middleware server mw d' = (- 1, server)) \<and>
   route_count (run_ops ops) \<le> 256 \<and> middleware_count (run_ops ops) \<le> 32"
proof -
  have "route_count server = 256 \<longrightarrow> nyx_httpd_route server m p h d = (- 1, server)"
    by (simp add: nyx_httpd_route_def MAX_ROUTES_def split: option.splits)
  moreover have "middleware_count server = 32 \<longrightarrow>
      nyx_httpd_middleware server mw d' = (- 1, server)"
    by (simp add: nyx_httpd_middleware_def MAX_MIDDLEWARE_def split: option.splits)
  moreover have "route_count (run_ops ops) \<le> MAX_ROUTES \<and>
      middleware_count (run_ops ops) \<le> MAX_MIDDLEWARE"
    unfolding run_ops_def
    by (rule foldl_apply_op_bounds)
       (simp_all add: nyx_httpd_create_def route_count_def middleware_count_def)
  ultimately show ?thesis by (simp add: MAX_ROUTES_def MAX_MIDDLEWARE_def)
qed

theorem C3_registry_capacity_witness:
  "route_count (run_ops (replicate 256 get_root_route)) = 256 \<and>
   nyx_httpd_route (run_ops (replicate 256 get_root_route))
       (Some ''POST'') (Some ''/new'') (Some hello_handler) 7
     = (- 1, run_ops (replicate 256 get_root_route)) \<and>
   route_count (run_ops (replicate 257 get_root_route)) = 256 \<and>
   middleware_count (run_ops (replicate 32 nop_middleware)) = 32 \<and>
   nyx_httpd_middleware (run_ops (replicate 32 nop_middleware)) (Some hello_handler) 7
     = (- 1, run_ops (replicate 32 nop_middleware)) \<and>
   middleware_count (run_ops (replicate 33 nop_middleware)) = 32"
proof -
  have r256: "route_count (run_ops (replicate 256 get_root_route)) = 256"
    and r257: "route_count (run_ops (replicate 257 get_root_route)) = 256"
    unfolding get_root_route_def by (simp_all add: repeated_route_registration)
  have m32: "middleware_count (run_ops (replicate 32 nop_middleware)) = 32"
    and m33: "middleware_count (run_ops (replicate 33 nop_middleware)) = 32"
    unfolding nop_middleware_def by (simp_all add: repeated_middleware_registration)
  note full = C3_registry_capacity [where server = "run_ops (replicate 256 get_root_route)",
      THEN conjunct1, THEN mp, OF r256]
  note mfull = C3_registry_capacity [where server = "run_ops (replicate 32 nop_middleware)",
      THEN conjunct2, THEN conjunct1, THEN mp, OF m32]
  from r256 r257 m32 m33 full mfull show ?thesis by blast
qed

section \<open>Route registration stores prefixes\<close>

lemma route_loop_single:
  assumes "req_method req = Some m'" and "req_path req = Some p'"
  shows "route_loop [route] i req hs =
     (if route_method route = m' \<and> route_path route = p'
      then ([Handler_called i], Inr (True, route_handler route req hs (route_user_data route)))
      else ([], Inr (False, hs)))"
  using assms by simp

text \<open>
  C10. With room in the table and non-null arguments, \<open>nyx_httpd_route\<close> returns \<open>0\<close>
  also for a method longer than 15 bytes or a path longer than 255 bytes, and the
  route it appends holds the first 15 bytes of the method and the first 255 bytes of the
  path. That route is selected by the route loop exactly for requests whose method and
  path are these prefixes; the pair of prefixes differs from the pair registered, so a
  request carrying the registered strings is not matched.
\<close>

theorem C10_route_truncation:
  assumes "route_count server < 256" and "15 < length m \<or> 255 < length p"
  shows "nyx_httpd_route server (Some m) (Some p) (Some h) d =
           (0, server\<lparr>routes := routes server @
                 [\<lparr>route_method = take 15 m, route_path = take 255 p,
                   route_handler = h, route_user_data = d\<rparr>]\<rparr>) \<and>
         (req_method req = Some m' \<and> req_path req = Some p' \<longrightarrow>
          route_loop [\<lparr>route_method = take 15 m, route_path = take 255 p,
                       route_handler = h, route_user_data = d\<rparr>] i req hs =
            (if m' = take 15 m \<and> p' = take 255 p
             then ([Handler_called i], Inr (True, h req hs d))
             else ([], Inr (False, hs)))) \<and>
         (take 15 m, take 255 p) \<noteq> (m, p)"
proof -
  from assms(1) have registered: "nyx_httpd_route server (Some m) (Some p) (Some h) d =
           (0, server\<lparr>routes := routes server @
                 [\<lparr>route_method = take 15 m, route_path = take 255 p,
                   route_handler = h, route_user_data = d\<rparr>]\<rparr>)"
    by (simp add: nyx_httpd_route_def MAX_ROUTES_def strncpy_def)
  have matched: "req_method req = Some m' \<and> req_path req = Some p' \<longrightarrow>
         route_loop [\<lparr>route_method = take 15 m, route_path = take 255 p,
                      route_handler = h, route_user_data = d\<rparr>] i req hs =
           (if m' = take 15 m \<and> p' = take 255 p
            then ([Handler_called i], Inr (True, h req hs d))
            else ([], Inr (False, hs)))"
    by (auto simp: route_loop_single)
  from assms(2) have "length (take 15 m) \<noteq> length m \<or> length (take 255 p) \<noteq> length p"
    by auto
  then have "(take 15 m, take 255 p) \<noteq> (m, p)"
    by auto
  with registered matched show ?thesis
    by blast
qed

theorem C10_route_truncation_witness:
  "route_count nyx_httpd_create < 256 \<and> 15 < length long_method \<and>
   nyx_httpd_route nyx_httpd_create (Some long_method) (Some ''/dav'') (Some nop_handler) 0 =
     (0, nyx_httpd_create\<lparr>routes :=
           [\<lparr>route_method = ''PROPFIND-EXTEND'', route_path = ''/dav'',
             route_handler = nop_handler, route_user_data = 0\<rparr>]\<rparr>) \<and>
   route_loop [\<lparr>route_method = ''PROPFIND-EXTEND'', route_path = ''/dav'',
                route_handler = nop_handler, route_user_data = 0\<rparr>] 0
     (create_request\<lparr>req_method := Some long_method, req_path := Some ''/dav''\<rparr>)
     (create_response, []) = ([], Inr (False, (create_response, [])))"
proof -
  have pre: "route_count nyx_httpd_create < 256" "15 < length long_method \<or> 255 < length ''/dav''"
    by (simp_all add: route_count_def nyx_httpd_create_def long_method_def)
  have fields: "req_method (create_request\<lparr>req_method := Some long_method, req_path := Some ''/dav''\<rparr>)
      = Some long_method \<and>
    req_path (create_request\<lparr>req_method := Some long_method, req_path := Some ''/dav''\<rparr>)
      = Some ''/dav''"
    by simp
  show ?thesis
    using pre fields
      C10_route_truncation [OF pre, of nop_handler 0
        "create_request\<lparr>req_method := Some long_method, req_path := Some ''/dav''\<rparr>"
        long_method "''/dav''" 0 "(create_response, [])"]
    by (simp add: long_method_def nyx_httpd_create_def)
qed

section \<open>Error pages\<close>

lemma fmt_d_404: "fmt_d 404 = ''404''"
  by code_simp

lemma error_body_404:
  "take 1023 (error_page 404 (Some ''Not Found'')) =
     ''<html><head><title>404 Error</title></head><body><h1>404 Error</h1><p>Not Found</p></body></html>''"
  by (simp add: error_page_def fmt_d_404)

lemma nyx_http_response_error_fields:
  "resp_status_code (fst (nyx_http_response_error hs status message)) = status"
  "resp_body (fst (nyx_http_response_error hs status message)) = Some Error_body"
  "resp_body_length (fst (nyx_http_response_error hs status message)) =
     length (take 1023 (error_page status message))"
  "snd (nyx_http_response_error hs status message) = take 1023 (error_page status message)"
  by (simp_all add: nyx_http_response_error_def nyx_http_response_set_header_def Let_def)

text \<open>
  C9. Every error page lives in the one static array. After
  \<open>nyx_http_response_error\<close> on a response \<open>r1\<close> and then on a response \<open>r2\<close>, the body
  pointers of both are the address of that array, and the array holds the page of the
  second call, so that is what the body of \<open>r1\<close> reads as well. The same holds when the
  second call is the 404 that \<open>dispatch\<close> makes when the route loop matched nothing.
\<close>

theorem C9_error_body_shared:
  "(case nyx_http_response_error (r1, eb0) s1 m1 of
      (r1', eb1) \<Rightarrow>
        resp_body r1' = Some Error_body \<and>
        (case nyx_http_response_error (r2, eb1) s2 m2 of
           (r2', eb2) \<Rightarrow>
             resp_body r2' = resp_body r1' \<and>
             deref eb2 Error_body = take 1023 (error_page s2 m2)) \<and>
        (route_loop (routes server) 0 req (r2, eb1) = (tr, Inr (False, (r2, eb1))) \<longrightarrow>
           (case dispatch server req (r2, eb1) of
              (tr', Inr (r2', eb2)) \<Rightarrow>
                resp_body r2' = resp_body r1' \<and>
                deref eb2 Error_body = take 1023 (error_page 404 (Some ''Not Found''))
            | (tr', Inl e) \<Rightarrow> False)))"
proof -
  obtain r1' eb1 where st1: "nyx_http_response_error (r1, eb0) s1 m1 = (r1', eb1)"
    by (cases "nyx_http_response_error (r1, eb0) s1 m1")
  obtain r2' eb2 where st2: "nyx_http_response_error (r2, eb1) s2 m2 = (r2', eb2)"
    by (cases "nyx_http_response_error (r2, eb1) s2 m2")
  obtain r3' eb3 where st3: "nyx_http_response_error (r2, eb1) 404 (Some ''Not Found'') = (r3', eb3)"
    by (cases "nyx_http_response_error (r2, eb1) 404 (Some ''Not Found'')")
  have b1: "resp_body r1' = Some Error_body"
    using nyx_http_response_error_fields(2) [of "(r1, eb0)" s1 m1] by (simp add: st1)
  have b2: "resp_body r2' = Some Error_body" "eb2 = take 1023 (error_page s2 m2)"
    using nyx_http_response_error_fields(2,4) [of "(r2, eb1)" s2 m2] by (simp_all add: st2)
  have b3: "resp_body r3' = Some Error_body" "eb3 = take 1023 (error_page 404 (Some ''Not Found''))"
    using nyx_http_response_error_fields(2,4) [of "(r2, eb1)" 404 "Some ''Not Found''"]
    by (simp_all add: st3)
  show ?thesis
    by (simp add: st1 st2 b1 b2 dispatch_def st3 b3)
qed

theorem C9_error_body_shared_witness:
  "route_loop (routes nyx_httpd_create) 0 get_a_request
     (create_response, take 1023 (error_page 500 (Some ''boom''))) =
     ([], Inr (False, (create_response, take 1023 (error_page 500 (Some ''boom''))))) \<and>
   resp_body (fst (nyx_http_response_error (create_response, []) 500 (Some ''boom''))) = Some Error_body \<and>
   (\<exists>tr r2'. dispatch nyx_httpd_create get_a_request
        (create_response, take 1023 (error_page 500 (Some ''boom''))) =
          (tr, Inr (r2', ''<html><head><title>404 Error</title></head><body><h1>404 Error</h1><p>Not Found</p></body></html>'')) \<and>
        resp_body r2' = Some Error_body)"
proof -
  obtain r1' where st1: "nyx_http_response_error (create_response, []) 500 (Some ''boom'') =
      (r1', take 1023 (error_page 500 (Some ''boom'')))"
    using nyx_http_response_error_fields(4) [of "(create_response, [])" 500 "Some ''boom''"]
    by (cases "nyx_http_response_error (create_response, []) 500 (Some ''boom'')") simp
  have loop: "route_loop (routes nyx_httpd_create) 0 get_a_request
     (create_response, take 1023 (error_page 500 (Some ''boom''))) =
     ([], Inr (False, (create_response, take 1023 (error_page 500 (Some ''boom'')))))"
    by (simp add: nyx_httpd_create_def)
  have body1: "resp_body (fst (nyx_http_response_error (create_response, []) 500 (Some ''boom''))) = Some Error_body"
    by (rule nyx_http_response_error_fields)
  then have body1': "resp_body r1' = Some Error_body"
    by (simp add: st1)
  have "case dispatch nyx_httpd_create get_a_request
        (create_response, take 1023 (error_page 500 (Some ''boom''))) of
              (tr', Inr (r2', eb2)) \<Rightarrow>
                resp_body r2' = Some Error_body \<and>
                deref eb2 Error_body = take 1023 (error_page 404 (Some ''Not Found''))
            | (tr', Inl e) \<Rightarrow> False"
    using C9_error_body_shared [where ?r1.0 = create_response and ?eb0.0 = "[]" and ?s1.0 = 500
        and ?m1.0 = "Some ''boom''" and ?r2.0 = create_response and ?s2.0 = 500
        and ?m2.0 = "Some ''boom''" and server = nyx_httpd_create and req = get_a_request
        and tr = "[]"] loop body1'
    by (auto simp: st1 split: prod.splits sum.splits)
  then have "\<exists>tr r2'. dispatch nyx_httpd_create get_a_request
        (create_response, take 1023 (error_page 500 (Some ''boom''))) =
          (tr, Inr (r2', ''<html><head><title>404 Error</title></head><body><h1>404 Error</h1><p>Not Found</p></body></html>'')) \<and>
        resp_body r2' = Some Error_body"
    by (auto simp: error_body_404 split: prod.splits sum.splits)
  with loop body1 show ?thesis by blast
qed

section \<open>Header container\<close>

lemma get_header_loop_find:
  "get_header_loop d n = map_option h_value (find (\<lambda>h. strcasecmp_eq (h_name h) n) d)"
  by (induction d) simp_all

lemma get_header_loop_append:
  "get_header_loop (d @ e) n =
     (case get_header_loop d n of Some v \<Rightarrow> Some v | None \<Rightarrow> get_header_loop e n)"
  by (induction d) simp_all

text \<open>
  C5 (amended). \<open>nyx_http_request_get_header\<close> returns the value of the first entry, in
  insertion order, whose name equals the queried name after lower-casing both, and
  NULL when there is none. \<open>nyx_http_response_set_header\<close> never updates an entry in
  place: with fewer than 64 entries it appends one entry holding the first 127 bytes of
  the name and the first 511 bytes of the value, and with 64 entries it leaves the
  response unchanged. So with room for two more entries, setting the same name (of at
  most 127 bytes, values of at most 511) twice yields two entries, and a lookup of that
  name over the container still returns the earliest value: the one it returned before
  the two calls if there was one, and else the value of the first call.
\<close>

theorem C5_header_container:
  "nyx_http_request_get_header req (Some q) =
     map_option h_value (find (\<lambda>h. map tolower (h_name h) = map tolower q) (req_headers req)) \<and>
   (length (resp_headers resp) < 64 \<longrightarrow>
      resp_headers (nyx_http_response_set_header resp (Some n) (Some v)) =
        resp_headers resp @ [\<lparr>h_name = take 127 n, h_value = take 511 v\<rparr>]) \<and>
   (64 \<le> length (resp_headers resp) \<longrightarrow>
      nyx_http_response_set_header resp (Some n) (Some v) = resp) \<and>
   (length (resp_headers resp) + 2 \<le> 64 \<and> length n \<le> 127 \<and> length v \<le> 511 \<and> length v' \<le> 511 \<longrightarrow>
      (let resp2 = nyx_http_response_set_header
                     (nyx_http_response_set_header resp (Some n) (Some v)) (Some n) (Some v')
       in resp_headers resp2 =
            resp_headers resp @ [\<lparr>h_name = n, h_value = v\<rparr>, \<lparr>h_name = n, h_value = v'\<rparr>] \<and>
          nyx_http_request_get_header (req\<lparr>req_headers := resp_headers resp2\<rparr>) (Some n) =
            (case nyx_http_request_get_header (req\<lparr>req_headers := resp_headers resp\<rparr>) (Some n) of
               Some x \<Rightarrow> Some x
             | None \<Rightarrow> Some v)))"
proof -
  have get: "nyx_http_request_get_header req (Some q) =
     map_option h_value (find (\<lambda>h. map tolower (h_name h) = map tolower q) (req_headers req))"
    using get_header_loop_find [of "req_headers req" q]
    by (simp add: nyx_http_request_get_header_def strcasecmp_eq_def)
  have app: "length (resp_headers resp) < 64 \<longrightarrow>
      resp_headers (nyx_http_response_set_header resp (Some n) (Some v)) =
        resp_headers resp @ [\<lparr>h_name = take 127 n, h_value = take 511 v\<rparr>]"
    by (simp add: nyx_http_response_set_header_def MAX_HEADERS_def strncpy_def)
  have full: "64 \<le> length (resp_headers resp) \<longrightarrow>
      nyx_http_response_set_header resp (Some n) (Some v) = resp"
    by (simp add: nyx_http_response_set_header_def MAX_HEADERS_def)
  have twice: "length (resp_headers resp) + 2 \<le> 64 \<and> length n \<le> 127 \<and> length v \<le> 511 \<and> length v' \<le> 511 \<longrightarrow>
      (let resp2 = nyx_http_response_set_header
                     (nyx_http_response_set_header resp (Some n) (Some v)) (Some n) (Some v')
       in resp_headers resp2 =
            resp_headers resp @ [\<lparr>h_name = n, h_value = v\<rparr>, \<lparr>h_name = n, h_value = v'\<rparr>] \<and>
          nyx_http_request_get_header (req\<lparr>req_headers := resp_headers resp2\<rparr>) (Some n) =
            (case nyx_http_request_get_header (req\<lparr>req_headers := resp_headers resp\<rparr>) (Some n) of
               Some x \<Rightarrow> Some x
             | None \<Rightarrow> Some v))"
    by (simp add: nyx_http_response_set_header_def MAX_HEADERS_def strncpy_def Let_def
        nyx_http_request_get_header_def get_header_loop_append strcasecmp_eq_def
        split: option.splits)
  from get app full twice show ?thesis by blast
qed

lemma tolower_content_type:
  "map tolower ''Content-Type'' = ''content-type''"
  "map tolower ''content-type'' = ''content-type''"
  by code_simp+

theorem C5_header_container_witness:
  "length (resp_headers create_response) + 2 \<le> 64 \<and>
   resp_headers (nyx_http_response_set_header
       (nyx_http_response_set_header create_response (Some ''Content-Type'') (Some ''text/html''))
       (Some ''Content-Type'') (Some ''text/plain'')) =
     [\<lparr>h_name = ''Content-Type'', h_value = ''text/html''\<rparr>,
      \<lparr>h_name = ''Content-Type'', h_value = ''text/plain''\<rparr>] \<and>
   nyx_http_request_get_header
     (create_request\<lparr>req_headers := resp_headers (nyx_http_response_set_header
       (nyx_http_response_set_header create_response (Some ''Content-Type'') (Some ''text/html''))
       (Some ''Content-Type'') (Some ''text/plain''))\<rparr>) (Some ''Content-Type'') = Some ''text/html'' \<and>
   length (resp_headers full_response) = 64 \<and>
   nyx_http_response_set_header full_response (Some ''Content-Type'') (Some ''text/html'') = full_response"
proof -
  have room: "length (resp_headers create_response) + 2 \<le> 64 \<and> length ''Content-Type'' \<le> 127 \<and>
      length ''text/html'' \<le> 511 \<and> length ''text/plain'' \<le> 511"
    by (simp add: create_response_def)
  have none: "nyx_http_request_get_header (create_request\<lparr>req_headers := resp_headers create_response\<rparr>)
      (Some ''Content-Type'') = None"
    by (simp add: nyx_http_request_get_header_def create_response_def)
  have full: "length (resp_headers full_response) = 64"
    by (simp add: full_response_def)
  note twice = C5_header_container [where resp = create_response and n = "''Content-Type''"
      and v = "''text/html''" and v' = "''text/plain''" and req = create_request,
      THEN conjunct2, THEN conjunct2, THEN conjunct2, THEN mp, OF room, unfolded Let_def]
  note at_capacity = C5_header_container [where resp = full_response and n = "''Content-Type''"
      and v = "''text/html''", THEN conjunct2, THEN conjunct2, THEN conjunct1, THEN mp]
  have "nyx_http_response_set_header full_response (Some ''Content-Type'') (Some ''text/html'')
      = full_response"
    by (rule at_capacity) (simp add: full)
  with twice [THEN conjunct1] twice [THEN conjunct2] none full room show ?thesis
    by (simp add: create_response_def)
qed

theorem C5_set_at_capacity_counterexample:
  "length (resp_headers full_response) = 64 \<and>
   length (resp_headers (nyx_http_response_set_header
       (nyx_http_response_set_header full_response (Some ''X-Tag'') (Some ''1''))
       (Some ''X-Tag'') (Some ''2''))) = 64 \<and>
   nyx_http_request_get_header
     (create_request\<lparr>req_headers := resp_headers (nyx_http_response_set_header
       (nyx_http_response_set_header full_response (Some ''X-Tag'') (Some ''1''))
       (Some ''X-Tag'') (Some ''2''))\<rparr>) (Some ''X-Tag'') = None"
proof -
  have neq: "\<not> strcasecmp_eq ''X-Pad'' ''X-Tag''"
    by code_simp
  have scan: "get_header_loop (replicate k \<lparr>h_name = ''X-Pad'', h_value = ''0''\<rparr>) ''X-Tag'' = None" for k
    by (induction k) (simp_all add: neq)
  show ?thesis
    by (simp add: full_response_def nyx_http_response_set_header_def MAX_HEADERS_def
        create_response_def nyx_http_request_get_header_def scan)
qed

section \<open>Route dispatch\<close>





section \<open>Bounded fields in parsing\<close>

lemma strchr_append_first:
  "c \<notin> set a \<Longrightarrow> strchr (a @ c # b) c = Some (length a)"
  by (induction a) auto

lemma strchr_append_skip:
  "c \<notin> set a \<Longrightarrow>
   strchr (a @ b) c = (case strchr b c of None \<Rightarrow> None | Some i \<Rightarrow> Some (length a + i))"
  by (induction a) (auto split: option.splits)

lemma parse_request_line_with_query:
  assumes "CHR '' '' \<notin> set m" and "CHR '' '' \<notin> set p" and "CHR ''?'' \<notin> set p"
    and "CHR '' '' \<notin> set q"
  shows "parse_request_line (m @ '' '' @ p @ ''?'' @ q @ '' '' @ proto) =
     (if 16 \<le> length m \<or> 256 \<le> length p \<or> 512 \<le> length q \<or> 16 \<le> length proto
      then None else Some (m, p, q, proto))"
proof -
  let ?rest = "p @ CHR ''?'' # q @ CHR '' '' # proto"
  have s1: "strchr (m @ CHR '' '' # ?rest) (CHR '' '') = Some (length m)"
    using assms(1) by (rule strchr_append_first)
  have "CHR '' '' \<notin> set (p @ CHR ''?'' # q)"
    using assms(2,4) by simp
  from strchr_append_first [OF this, of proto]
  have s2: "strchr ?rest (CHR '' '') = Some (length p + 1 + length q)"
    by simp
  have sq: "strchr ?rest (CHR ''?'') = Some (length p)"
    using assms(3) by (rule strchr_append_first)
  show ?thesis
    using s1 s2 sq by (simp add: parse_request_line_def Let_def)
qed

lemma parse_request_line_without_query:
  assumes "CHR '' '' \<notin> set m" and "CHR '' '' \<notin> set p" and "CHR ''?'' \<notin> set p"
  shows "parse_request_line (m @ '' '' @ p @ '' '' @ proto) =
     (if 16 \<le> length m \<or> 256 \<le> length p \<or> 16 \<le> length proto
      then None else Some (m, p, [], proto))"
proof -
  let ?rest = "p @ CHR '' '' # proto"
  have s1: "strchr (m @ CHR '' '' # ?rest) (CHR '' '') = Some (length m)"
    using assms(1) by (rule strchr_append_first)
  have s2: "strchr ?rest (CHR '' '') = Some (length p)"
    using assms(2) by (rule strchr_append_first)
  have sq: "strchr ?rest (CHR ''?'') =
      (case strchr (CHR '' '' # proto) (CHR ''?'') of None \<Rightarrow> None | Some i \<Rightarrow> Some (length p + i))"
    using assms(3) by (rule strchr_append_skip)
  have noq: "(case strchr ?rest (CHR ''?'') of None \<Rightarrow> None
             | Some q \<Rightarrow> (if q < length p then Some q else None)) = None"
    by (simp add: sq split: option.splits)
  show ?thesis
    using s1 s2 noq by (simp add: parse_request_line_def Let_def)
qed

lemma dropWhile_blanks:
  assumes "set ws \<subseteq> {CHR '' '', TAB}" and "v = [] \<or> hd v \<notin> {CHR '' '', TAB}"
  shows "dropWhile (\<lambda>c. c = CHR '' '' \<or> c = TAB) (ws @ v) = v"
proof -
  have "dropWhile (\<lambda>c. c = CHR '' '' \<or> c = TAB) (ws @ v) = dropWhile (\<lambda>c. c = CHR '' '' \<or> c = TAB) v"
    using assms(1) by (intro dropWhile_append2) auto
  also have "\<dots> = v"
    using assms(2) by (cases v) auto
  finally show ?thesis .
qed

lemma parse_header_layout:
  assumes "CHR '':'' \<notin> set n" and "set ws \<subseteq> {CHR '' '', TAB}"
    and "v = [] \<or> hd v \<notin> {CHR '' '', TAB}"
  shows "parse_header (n @ '':'' @ ws @ v) =
     (if 128 \<le> length n \<or> 512 \<le> length v then None else Some (n, v))"
proof -
  have c: "strchr (n @ CHR '':'' # ws @ v) (CHR '':'') = Some (length n)"
    using assms(1) by (rule strchr_append_first)
  show ?thesis
    using c dropWhile_blanks [OF assms(2,3)] by (simp add: parse_header_def Let_def)
qed

text \<open>
  C7. Take a request line laid out as method, blank, path, optionally \<open>?\<close> and query,
  blank, protocol (no blank in method, path or query, no \<open>?\<close> in the path). If the
  method has 16 bytes or more, the path 256 or more, the query 512 or more or the
  protocol 16 or more, \<open>parse_request_line\<close> fails and \<open>handle_client\<close> stores nothing in
  the request. Take a header line laid out as name, colon, blanks and tabs, value (no
  colon in the name). If the name has 128 bytes or more or the value 512 or more,
  \<open>parse_header\<close> fails and no entry and no mirrored field is stored.
\<close>

theorem C7_overlong_fields_rejected:
  "(CHR '' '' \<notin> set m \<and> CHR '' '' \<notin> set p \<and> CHR ''?'' \<notin> set p \<and> CHR '' '' \<notin> set q \<and>
    (16 \<le> length m \<or> 256 \<le> length p \<or> 512 \<le> length q \<or> 16 \<le> length proto) \<longrightarrow>
      parse_request_line (m @ '' '' @ p @ ''?'' @ q @ '' '' @ proto) = None \<and>
      store_request_line (m @ '' '' @ p @ ''?'' @ q @ '' '' @ proto) req = req) \<and>
   (CHR '' '' \<notin> set m \<and> CHR '' '' \<notin> set p \<and> CHR ''?'' \<notin> set p \<and>
    (16 \<le> length m \<or> 256 \<le> length p \<or> 16 \<le> length proto) \<longrightarrow>
      parse_request_line (m @ '' '' @ p @ '' '' @ proto) = None \<and>
      store_request_line (m @ '' '' @ p @ '' '' @ proto) req = req) \<and>
   (CHR '':'' \<notin> set n \<and> set ws \<subseteq> {CHR '' '', TAB} \<and> (v = [] \<or> hd v \<notin> {CHR '' '', TAB}) \<and>
    (128 \<le> length n \<or> 512 \<le> length v) \<longrightarrow>
      parse_header (n @ '':'' @ ws @ v) = None \<and>
      store_header (n @ '':'' @ ws @ v) req = req)"
proof -
  have with_query: "CHR '' '' \<notin> set m \<and> CHR '' '' \<notin> set p \<and> CHR ''?'' \<notin> set p \<and> CHR '' '' \<notin> set q \<and>
    (16 \<le> length m \<or> 256 \<le> length p \<or> 512 \<le> length q \<or> 16 \<le> length proto) \<longrightarrow>
      parse_request_line (m @ '' '' @ p @ ''?'' @ q @ '' '' @ proto) = None \<and>
      store_request_line (m @ '' '' @ p @ ''?'' @ q @ '' '' @ proto) req = req"
    using parse_request_line_with_query [of m p q proto]
    by (simp add: store_request_line_def)
  have without_query: "CHR '' '' \<notin> set m \<and> CHR '' '' \<notin> set p \<and> CHR ''?'' \<notin> set p \<and>
    (16 \<le> length m \<or> 256 \<le> length p \<or> 16 \<le> length proto) \<longrightarrow>
      parse_request_line (m @ '' '' @ p @ '' '' @ proto) = None \<and>
      store_request_line (m @ '' '' @ p @ '' '' @ proto) req = req"
    using parse_request_line_without_query [of m p proto]
    by (simp add: store_request_line_def)
  have header: "CHR '':'' \<notin> set n \<and> set ws \<subseteq> {CHR '' '', TAB} \<and> (v = [] \<or> hd v \<notin> {CHR '' '', TAB}) \<and>
    (128 \<le> length n \<or> 512 \<le> length v) \<longrightarrow>
      parse_header (n @ '':'' @ ws @ v) = None \<and>
      store_header (n @ '':'' @ ws @ v) req = req"
    using parse_header_layout [of n ws v]
    by (simp add: store_header_def)
  from with_query without_query header show ?thesis by blast
qed

theorem C7_overlong_fields_rejected_witness:
  "parse_request_line (''ABCDEFGHIJKLMNOP'' @ '' '' @ ''/index'' @ '' '' @ ''HTTP/1.1'') = None \<and>
   store_request_line (''ABCDEFGHIJKLMNOP'' @ '' '' @ ''/index'' @ '' '' @ ''HTTP/1.1'') create_request
     = create_request \<and>
   parse_request_line (''GET'' @ '' '' @ ''/s'' @ ''?'' @ replicate 512 (CHR ''x'') @ '' '' @ ''HTTP/1.1'')
     = None \<and>
   parse_header (replicate 128 (CHR ''N'') @ '':'' @ '' '' @ ''v'') = None \<and>
   store_header (''X-Long'' @ '':'' @ [CHR '' '', TAB] @ replicate 512 (CHR ''v'')) create_request
     = create_request"
proof -
  have method_long: "CHR '' '' \<notin> set ''ABCDEFGHIJKLMNOP'' \<and> CHR '' '' \<notin> set ''/index'' \<and>
      CHR ''?'' \<notin> set ''/index'' \<and>
      (16 \<le> length ''ABCDEFGHIJKLMNOP'' \<or> 256 \<le> length ''/index'' \<or> 16 \<le> length ''HTTP/1.1'')"
    by simp
  have query_long: "CHR '' '' \<notin> set ''GET'' \<and> CHR '' '' \<notin> set ''/s'' \<and> CHR ''?'' \<notin> set ''/s'' \<and>
      CHR '' '' \<notin> set (replicate 512 (CHR ''x'')) \<and>
      (16 \<le> length ''GET'' \<or> 256 \<le> length ''/s'' \<or> 512 \<le> length (replicate 512 (CHR ''x'')) \<or>
       16 \<le> length ''HTTP/1.1'')"
    by simp
  have name_long: "CHR '':'' \<notin> set (replicate 128 (CHR ''N'')) \<and> set '' '' \<subseteq> {CHR '' '', TAB} \<and>
      (''v'' = [] \<or> hd ''v'' \<notin> {CHR '' '', TAB}) \<and>
      (128 \<le> length (replicate 128 (CHR ''N'')) \<or> 512 \<le> length ''v'')"
    by (simp add: TAB_def)
  have value_long: "CHR '':'' \<notin> set ''X-Long'' \<and> set [CHR '' '', TAB] \<subseteq> {CHR '' '', TAB} \<and>
      (replicate 512 (CHR ''v'') = [] \<or> hd (replicate 512 (CHR ''v'')) \<notin> {CHR '' '', TAB}) \<and>
      (128 \<le> length ''X-Long'' \<or> 512 \<le> length (replicate 512 (CHR ''v'')))"
    by (simp add: TAB_def hd_replicate)
  note a = C7_overlong_fields_rejected [where m = "''ABCDEFGHIJKLMNOP''" and p = "''/index''"
      and proto = "''HTTP/1.1''" and req = create_request,
      THEN conjunct2, THEN conjunct1, THEN mp, OF method_long]
  note b = C7_overlong_fields_rejected [where m = "''GET''" and p = "''/s''"
      and q = "replicate 512 (CHR ''x'')" and proto = "''HTTP/1.1''",
      THEN conjunct1, THEN mp, OF query_long, THEN conjunct1]
  note c = C7_overlong_fields_rejected [where n = "replicate 128 (CHR ''N'')" and ws = "'' ''"
      and v = "''v''", THEN conjunct2, THEN conjunct2, THEN mp, OF name_long, THEN conjunct1]
  note d = C7_overlong_fields_rejected [where n = "''X-Long''" and ws = "[CHR '' '', TAB]"
      and v = "replicate 512 (CHR ''v'')" and req = create_request,
      THEN conjunct2, THEN conjunct2, THEN mp, OF value_long, THEN conjunct2]
  from a b c d show ?thesis by blast
qed

section \<open>Serving a file\<close>






lemma set_header_keeps_fields:
  "resp_status_code (nyx_http_response_set_header resp name val) = resp_status_code resp"
  "resp_body (nyx_http_response_set_header resp name val) = resp_body resp"
  "resp_body_length (nyx_http_response_set_header resp name val) = resp_body_length resp"
  by (simp_all add: nyx_http_response_set_header_def split: option.splits)






section \<open>Serialized responses\<close>

lemma buf_printf_fit:
  assumes "length buf = len" and "len + length s < BUFFER_SIZE"
  shows "buf_printf (buf, len) s = Inr (buf @ s, len + length s)"
  using assms by (simp add: buf_printf_def)

lemma add_headers_fit:
  assumes "length buf = len" and "len + length (header_lines hs) < BUFFER_SIZE"
  shows "add_headers hs (buf, len) = Inr (buf @ header_lines hs, len + length (header_lines hs))"
  using assms
proof (induction hs arbitrary: buf len)
  case Nil
  then show ?case by (simp add: header_lines_def)
next
  case (Cons h hs)
  let ?line = "h_name h @ '': '' @ h_value h @ CRLF"
  have split: "header_lines (h # hs) = ?line @ header_lines hs"
    by (simp add: header_lines_def)
  with Cons.prems have fit: "len + length ?line < BUFFER_SIZE"
    by simp
  have step: "buf_printf (buf, len) ?line = Inr (buf @ ?line, len + length ?line)"
    using Cons.prems(1) fit by (rule buf_printf_fit)
  have "add_headers hs (buf @ ?line, len + length ?line) =
      Inr ((buf @ ?line) @ header_lines hs, (len + length ?line) + length (header_lines hs))"
    using Cons.prems split by (intro Cons.IH) simp_all
  with step split show ?case by simp
qed

lemma render_headers_fit:
  assumes "length (header_block resp) < BUFFER_SIZE"
  shows "render_headers resp = Inr (header_block resp, length (header_block resp))"
proof -
  let ?cl = "''Content-Length: '' @ fmt_zu (resp_body_length resp) @ CRLF"
  let ?a = "status_line resp"
  let ?b = "status_line resp @ header_lines (resp_headers resp)"
  have hb: "header_block resp = ?a @ header_lines (resp_headers resp) @ ?cl @ CRLF"
    by (simp add: header_block_def)
  have s0: "buf_printf ([], 0) ?a = Inr (?a, length ?a)"
    using assms buf_printf_fit [of "[]" 0 ?a] by (simp add: hb)
  have s1: "add_headers (resp_headers resp) (?a, length ?a) = Inr (?b, length ?b)"
    using assms add_headers_fit [of ?a "length ?a" "resp_headers resp"] by (simp add: hb)
  have s2: "buf_printf (?b, length ?b) ?cl = Inr (?b @ ?cl, length (?b @ ?cl))"
    using assms buf_printf_fit [of ?b "length ?b" ?cl] by (simp add: hb)
  have s3: "buf_printf (?b @ ?cl, length (?b @ ?cl)) CRLF = Inr (header_block resp, length (header_block resp))"
    using assms buf_printf_fit [of "?b @ ?cl" "length (?b @ ?cl)" CRLF] by (simp add: hb)
  show ?thesis
    unfolding render_headers_def by (simp only: s0 s1 s2 s3 sum.case)
qed

lemma int_of_size_t_small:
  assumes "n < 2 ^ 31"
  shows "int_of_size_t n = int n"
proof -
  have "int_of_size_t n = sint (word_of_int (int n) :: 32 word)"
    by (simp add: int_of_size_t_def)
  also have "\<dots> = signed_take_bit (LENGTH(32) - 1) (int n)"
    by (rule sint_sbintrunc')
  also have "\<dots> = signed_take_bit 31 (int n)"
    by simp
  also have "\<dots> = int n"
  proof (rule signed_take_bit_int_eq_self)
    show "- (2 ^ 31) \<le> int n" by simp
    from assms have "int n < int (2 ^ 31)" by (simp only: of_nat_less_iff)
    then show "int n < 2 ^ 31" by simp
  qed
  finally show ?thesis .
qed

text \<open>The decimal \<^verbatim>\<open>%zu\<close> prints reads back, with \<open>atoi\<close>, as the number printed.\<close>

lemma digit_char:
  assumes "d < 10"
  shows "isdigit (char_of (48 + d))" and "(of_char (char_of (48 + d)) :: int) - 48 = int d"
    and "\<not> isspace (char_of (48 + d))" and "char_of (48 + d) \<noteq> CHR ''-''"
    and "char_of (48 + d) \<noteq> CHR ''+''"
proof -
  from assms have v: "(of_char (char_of (48 + d) :: char) :: nat) = 48 + d"
    by simp
  show "isdigit (char_of (48 + d))"
    using assms by (simp add: isdigit_def v)
  have "(of_char (char_of (48 + d) :: char) :: int) = int (of_char (char_of (48 + d) :: char))"
    by (simp only: of_nat_of_char)
  then show "(of_char (char_of (48 + d)) :: int) - 48 = int d"
    using assms by simp
  have other: "char_of (48 + d) \<noteq> c" if "(of_char c :: nat) < 48" for c :: char
  proof
    assume "char_of (48 + d) = c"
    then have "(of_char (char_of (48 + d) :: char) :: nat) = of_char c"
      by simp
    with v that show False by simp
  qed
  have "char_of (48 + d) \<noteq> CHR '' ''"
    by (rule other) simp
  then show "\<not> isspace (char_of (48 + d))"
    using assms by (simp add: isspace_def)
  show "char_of (48 + d) \<noteq> CHR ''-''"
    by (rule other) simp
  show "char_of (48 + d) \<noteq> CHR ''+''"
    by (rule other) simp
qed

lemma atoi_digits_append:
  "\<forall>c \<in> set xs. isdigit c \<Longrightarrow> atoi_digits (xs @ ys) acc = atoi_digits ys (atoi_digits xs acc)"
  by (induction xs arbitrary: acc) simp_all

lemma dec_digits_all_digits: "\<forall>c \<in> set (dec_digits n). isdigit c"
proof (induction n rule: dec_digits.induct)
  case (1 n)
  show ?case
  proof (cases "n < 10")
    case True
    then show ?thesis by (simp add: dec_digits.simps [of n] digit_char(1))
  next
    case False
    have "n mod 10 < 10" by simp
    then have "isdigit (char_of (48 + n mod 10))" by (rule digit_char(1))
    with False 1 show ?thesis by (simp add: dec_digits.simps [of n])
  qed
qed

lemma atoi_digits_dec_digits: "atoi_digits (dec_digits n) 0 = int n"
proof (induction n rule: dec_digits.induct)
  case (1 n)
  show ?case
  proof (cases "n < 10")
    case True
    then show ?thesis
      using digit_char(1,2) [of n] by (simp add: dec_digits.simps [of n])
  next
    case False
    have d: "n mod 10 < 10" by simp
    have "atoi_digits (dec_digits n) 0 =
        atoi_digits [char_of (48 + n mod 10)] (atoi_digits (dec_digits (n div 10)) 0)"
      using False dec_digits_all_digits [of "n div 10"]
      by (simp add: dec_digits.simps [of n] atoi_digits_append)
    also have "\<dots> = 10 * int (n div 10) + int (n mod 10)"
      using False 1 digit_char(1,2) [OF d] by simp
    also have "\<dots> = int n"
      by (simp add: zdiv_int zmod_int)
    finally show ?thesis .
  qed
qed

lemma dec_digits_first:
  "\<exists>(d::nat) cs. d < 10 \<and> dec_digits n = char_of (48 + d) # cs"
proof (induction n rule: dec_digits.induct)
  case (1 n)
  show ?case
  proof (cases "n < 10")
    case True
    then show ?thesis by (auto simp: dec_digits.simps [of n])
  next
    case False
    with 1 obtain d :: nat and cs where "d < 10"
      and "dec_digits (n div 10) = char_of (48 + d) # cs"
      by blast
    with False show ?thesis by (auto simp: dec_digits.simps [of n])
  qed
qed

lemma atoi_fmt_zu: "atoi (fmt_zu n) = int n"
proof -
  obtain d :: nat and cs where d: "d < 10" and shape: "dec_digits n = char_of (48 + d) # cs"
    using dec_digits_first by blast
  have "atoi (dec_digits n) = atoi_digits (dec_digits n) 0"
    using digit_char(3,4,5) [OF d] by (simp add: atoi_def shape)
  then show ?thesis
    by (simp add: fmt_zu_def atoi_digits_dec_digits)
qed

lemma send_response_no_body:
  assumes "length (header_block resp) < BUFFER_SIZE"
    and "resp_body resp = None \<or> resp_body_length resp = 0"
  shows "send_response error_body resp = ([Socket_send (header_block resp)], Inr 0)"
proof -
  have rendered: "render_headers resp = Inr (header_block resp, length (header_block resp))"
    using assms(1) by (rule render_headers_fit)
  have first: "take (length (header_block resp)) (header_block resp @ [NUL]) = header_block resp"
    by simp
  from assms show ?thesis
    by (auto simp: send_response_def rendered first Let_def split: option.splits)
qed

text \<open>
  C4 (amended). Let the header block of a response be shorter than the 8192 bytes of
  the output buffer. Then \<open>send_response\<close> writes the block in one write: status line,
  all response headers, \<open>Content-Length\<close> with the decimal of \<open>body_length\<close>, blank line.
  When the body pointer is not NULL and \<open>body_length\<close> is positive (below \<open>2^31\<close> and
  within the bytes the pointer addresses) a second write follows with the first
  \<open>body_length\<close> bytes of the body, which is the whole body, and \<open>Content-Length\<close> its
  exact length, when \<open>body_length\<close> is the length of the body as every response helper
  sets it. When the body pointer is NULL or \<open>body_length\<close> is \<open>0\<close> there is no second
  write. For a request that \<open>handle_client\<close> handles to the end, these writes, for the
  final response, are all that is written to the socket.
\<close>

theorem C4_serialization:
  assumes "length (header_block resp) < 8192"
  shows "(resp_body resp = None \<or> resp_body_length resp = 0 \<longrightarrow>
            send_response error_body resp = ([Socket_send (header_block resp)], Inr 0)) \<and>
         (\<forall>ptr. resp_body resp = Some ptr \<and> 0 < resp_body_length resp \<and>
                resp_body_length resp < 2 ^ 31 \<and>
                resp_body_length resp \<le> length (deref error_body ptr) \<longrightarrow>
            send_response error_body resp =
              ([Socket_send (header_block resp),
                Socket_send (take (resp_body_length resp) (deref error_body ptr))], Inr 0)) \<and>
         (\<forall>ptr. resp_body resp = Some ptr \<and> 0 < resp_body_length resp \<and>
                resp_body_length resp < 2 ^ 31 \<and>
                resp_body_length resp = length (deref error_body ptr) \<longrightarrow>
            send_response error_body resp =
              ([Socket_send (status_line resp @ header_lines (resp_headers resp) @
                  ''Content-Length: '' @ fmt_zu (length (deref error_body ptr)) @ CRLF @ CRLF),
                Socket_send (deref error_body ptr)], Inr 0)) \<and>
         atoi (fmt_zu (resp_body_length resp)) = int (resp_body_length resp) \<and>
         (handle_client server addr port incoming error_body0 = (tr, Inr (resp, error_body)) \<longrightarrow>
            filter is_socket_send tr = fst (send_response error_body resp))"
proof -
  from assms have fit: "length (header_block resp) < BUFFER_SIZE"
    by (simp add: BUFFER_SIZE_def)
  have rendered: "render_headers resp = Inr (header_block resp, length (header_block resp))"
    using fit by (rule render_headers_fit)
  have first: "take (length (header_block resp)) (header_block resp @ [NUL]) = header_block resp"
    by simp
  have no_body: "resp_body resp = None \<or> resp_body_length resp = 0 \<longrightarrow>
      send_response error_body resp = ([Socket_send (header_block resp)], Inr 0)"
    using fit by (simp add: send_response_no_body)
  have body: "send_response error_body resp =
        ([Socket_send (header_block resp),
          Socket_send (take (resp_body_length resp) (deref error_body ptr))], Inr 0)"
    if "resp_body resp = Some ptr" and "0 < resp_body_length resp"
      and "resp_body_length resp < 2 ^ 31"
      and "resp_body_length resp \<le> length (deref error_body ptr)" for ptr
    using that fit
    by (simp add: send_response_def rendered first int_of_size_t_small Let_def)
  have whole: "send_response error_body resp =
        ([Socket_send (status_line resp @ header_lines (resp_headers resp) @
            ''Content-Length: '' @ fmt_zu (length (deref error_body ptr)) @ CRLF @ CRLF),
          Socket_send (deref error_body ptr)], Inr 0)"
    if "resp_body resp = Some ptr" and "0 < resp_body_length resp"
      and "resp_body_length resp < 2 ^ 31"
      and "resp_body_length resp = length (deref error_body ptr)" for ptr
    using body [of ptr] that by (simp add: header_block_def)
  have pipeline: "handle_client server addr port incoming error_body0 = (tr, Inr (resp, error_body)) \<longrightarrow>
      filter is_socket_send tr = fst (send_response error_body resp)"
    by (simp add: handle_client_socket_writes)
  from no_body body whole atoi_fmt_zu [of "resp_body_length resp"] pipeline show ?thesis by blast
qed

lemma fmt_small:
  "fmt_d 200 = ''200''" "fmt_zu 0 = ''0''" "fmt_zu (Suc (Suc (Suc (Suc (Suc 0))))) = ''5''"
  by code_simp+

lemma header_block_hello:
  "header_block hello_response =
     ''HTTP/1.1 200 OK'' @ CRLF @ ''Content-Type: text/html; charset=utf-8'' @ CRLF @
     ''Content-Length: 5'' @ CRLF @ CRLF"
  by (simp add: header_block_def hello_response_def nyx_http_response_html_def
      nyx_http_response_set_header_def create_response_def MAX_HEADERS_def strncpy_def
      strlen_opt_def status_line_def header_lines_def fmt_small)

lemma header_block_default:
  "header_block create_response = ''HTTP/1.1 200 OK'' @ CRLF @ ''Content-Length: 0'' @ CRLF @ CRLF"
  by (simp add: header_block_def create_response_def status_line_def header_lines_def fmt_small)

theorem C4_serialization_witness:
  "length (header_block hello_response) < 8192 \<and>
   resp_body hello_response = Some (Buffer ''hello'') \<and> resp_body_length hello_response = 5 \<and>
   send_response [] hello_response =
     ([Socket_send (''HTTP/1.1 200 OK'' @ CRLF @ ''Content-Type: text/html; charset=utf-8'' @ CRLF @
                    ''Content-Length: 5'' @ CRLF @ CRLF),
       Socket_send ''hello''], Inr 0) \<and>
   length (header_block create_response) < 8192 \<and> resp_body create_response = None \<and>
   send_response [] create_response =
     ([Socket_send (''HTTP/1.1 200 OK'' @ CRLF @ ''Content-Length: 0'' @ CRLF @ CRLF)], Inr 0)"
proof -
  have fit: "length (header_block hello_response) < 8192"
    by (simp add: header_block_hello CRLF_def)
  have fields: "resp_body hello_response = Some (Buffer ''hello'')"
    "resp_body_length hello_response = 5"
    by (simp_all add: hello_response_def nyx_http_response_html_def set_header_keeps_fields
        strlen_opt_def)
  have pre: "resp_body hello_response = Some (Buffer ''hello'') \<and>
      0 < resp_body_length hello_response \<and> resp_body_length hello_response < 2 ^ 31 \<and>
      resp_body_length hello_response \<le> length (deref [] (Buffer ''hello''))"
    by (simp add: fields)
  have sent: "send_response [] hello_response =
      ([Socket_send (header_block hello_response),
        Socket_send (take (resp_body_length hello_response) (deref [] (Buffer ''hello'')))], Inr 0)"
    by (rule C4_serialization [OF fit, THEN conjunct2, THEN conjunct1, THEN spec, THEN mp, OF pre])
  have fit0: "length (header_block create_response) < 8192"
    by (simp add: header_block_default CRLF_def)
  have none: "resp_body create_response = None"
    by (simp add: create_response_def)
  then have pre0: "resp_body create_response = None \<or> resp_body_length create_response = 0"
    by simp
  have sent0: "send_response [] create_response = ([Socket_send (header_block create_response)], Inr 0)"
    by (rule C4_serialization [OF fit0, THEN conjunct1, THEN mp, OF pre0])
  from fit fields sent fit0 none sent0 show ?thesis
    by (simp add: header_block_hello header_block_default)
qed

text \<open>
  The claim as stated fails on a valid request whose handler leaves the body empty: the
  guard of \<open>send_response\<close> on the body skips the second write.
\<close>

theorem C4_single_write_counterexample:
  "handle_client one_route_server ''10.0.0.1'' 40000 get_root_bytes [] =
     ([Handler_called 0,
       Socket_send (''HTTP/1.1 200 OK'' @ CRLF @ ''Content-Length: 0'' @ CRLF @ CRLF)],
      Inr (create_response, []))"
proof -
  have received: "take (BUFFER_SIZE - 1) get_root_bytes = get_root_bytes" "get_root_bytes \<noteq> []"
    by (simp_all add: get_root_bytes_def BUFFER_SIZE_def CRLF_def)
  have parsed: "parse_request (cstr get_root_bytes)
      (create_request\<lparr>req_remote_addr := Some ''10.0.0.1'', req_remote_port := 40000\<rparr>) =
    Inr (create_request\<lparr>req_remote_addr := Some ''10.0.0.1'', req_remote_port := 40000,
          req_method := Some ''GET'', req_path := Some ''/'', req_query_string := Some [],
          req_protocol := Some ''HTTP/1.1''\<rparr>)"
    by (simp add: get_root_bytes_def eval_parse)
  have fit0: "length (header_block create_response) < BUFFER_SIZE"
    by (simp add: header_block_default CRLF_def BUFFER_SIZE_def)
  have "resp_body create_response = None \<or> resp_body_length create_response = 0"
    by (simp add: create_response_def)
  with fit0 have "send_response [] create_response =
      ([Socket_send (header_block create_response)], Inr 0)"
    by (rule send_response_no_body)
  then have sent: "send_response [] create_response =
      ([Socket_send (''HTTP/1.1 200 OK'' @ CRLF @ ''Content-Length: 0'' @ CRLF @ CRLF)], Inr 0)"
    by (simp only: header_block_default)
  show ?thesis
    unfolding handle_client_def Let_def received
    by (simp add: received parsed one_route_server_def dispatch_def nop_handler_def sent)
qed

section \<open>Requests that do not parse\<close>

text \<open>
  C1 (what the code does). The buffer \<open>BAD\<close>, CRLF, CRLF has a request line without a
  blank: \<open>parse_request_line\<close> fails, and method, path and protocol of the request stay
  unset. With one route registered the route loop then hands the unset method to
  \<^verbatim>\<open>strcmp\<close>: the pipeline faults on the null pointer, before any response is built or
  written.
\<close>

theorem C1_unset_method_faults:
  "parse_request (cstr bad_line_bytes) create_request = Inr create_request \<and>
   req_method create_request = None \<and> req_path create_request = None \<and>
   req_protocol create_request = None \<and>
   handle_client one_route_server ''10.0.0.1'' 40000 bad_line_bytes [] =
     ([], Inl Null_dereference)"
proof -
  have received: "take (BUFFER_SIZE - 1) bad_line_bytes = bad_line_bytes" "bad_line_bytes \<noteq> []"
    by (simp_all add: bad_line_bytes_def BUFFER_SIZE_def CRLF_def)
  have parsed: "parse_request (cstr bad_line_bytes) req = Inr req" for req
    by (simp add: bad_line_bytes_def eval_parse)
  have unset: "req_method create_request = None \<and> req_path create_request = None \<and>
      req_protocol create_request = None"
    by (simp add: create_request_def)
  have "handle_client one_route_server ''10.0.0.1'' 40000 bad_line_bytes [] =
     ([], Inl Null_dereference)"
    unfolding handle_client_def Let_def received
    by (simp add: received parsed one_route_server_def dispatch_def create_request_def)
  with parsed unset show ?thesis by simp
qed

text \<open>
  C6 (what the code does). A buffer without CRLF is a request that fails to parse. On
  it \<open>handle_client\<close> faults in the header loop, on the pointer \<^verbatim>\<open>line_end + 2\<close> made
  from a NULL \<open>line_end\<close>: the registered middleware is never called.
\<close>

theorem C6_no_crlf_skips_middleware:
  "handle_client one_middleware_server ''10.0.0.1'' 40000 no_crlf_bytes [] =
     ([], Inl Null_dereference)"
proof -
  have received: "take (BUFFER_SIZE - 1) no_crlf_bytes = no_crlf_bytes" "no_crlf_bytes \<noteq> []"
    by (simp_all add: no_crlf_bytes_def BUFFER_SIZE_def)
  have parsed: "parse_request (cstr no_crlf_bytes) req = Inl Null_dereference" for req
    by (simp add: no_crlf_bytes_def eval_parse)
  show ?thesis
    unfolding handle_client_def Let_def received
    by (simp add: received parsed)
qed

end
